theory Spec2Isabelle
  imports Complex_Main
begin

section \<open>Numbers, errors and ranges of the host language\<close>

text \<open>
  The game of \<^verbatim>\<open>ants_game.py\<close> computes with Python's unbounded integers and with
  floats. Integers are \<^typ>\<open>int\<close>; floats are idealised as \<^typ>\<open>real\<close> (no rounding, no
  NaN, no infinities). Exceptions are values of \<open>py_error\<close>.
\<close>

datatype py_error = IndexError | ZeroDivisionError | ValueError

text \<open>\<^verbatim>\<open>int(v)\<close> on a float truncates towards zero.\<close>

definition py_int :: "real \<Rightarrow> int" where
  "py_int v = (if 0 \<le> v then \<lfloor>v\<rfloor> else \<lceil>v\<rceil>)"

text \<open>
  \<^verbatim>\<open>range(start, stop, step)\<close> for a non-zero step (a zero step raises ValueError, which
  the callers below check before they build the range).
\<close>

function py_range :: "int \<Rightarrow> int \<Rightarrow> int \<Rightarrow> int list" where
  "py_range start stop step =
     (if 0 < step \<and> start < stop then start # py_range (start + step) stop step
      else if step < 0 \<and> stop < start then start # py_range (start + step) stop step
      else [])"
  by pat_completeness auto
termination
  by (relation "measure (\<lambda>(start, stop, step).
        nat (if 0 < step then stop - start else start - stop))") auto

declare py_range.simps [simp del]

text \<open>
  Subscription \<^verbatim>\<open>xs[i]\<close> of a list: an index from \<open>-len(xs)\<close> to \<open>-1\<close> is taken from the
  end, and any index outside \<open>-len(xs) .. len(xs) - 1\<close> raises IndexError.
\<close>

definition py_index :: "'a list \<Rightarrow> int \<Rightarrow> py_error + 'a" where
  "py_index xs i =
     (if 0 \<le> i \<and> i < int (length xs) then Inr (xs ! nat i)
      else if i < 0 \<and> - int (length xs) \<le> i then Inr (xs ! nat (int (length xs) + i))
      else Inl IndexError)"

section \<open>Configuration\<close>

record GameConfig =
  SCREEN_WIDTH :: int
  SCREEN_HEIGHT :: int
  FPS :: int
  GRAVITY :: real
  TERRAIN_RESOLUTION :: int
  MIN_GROUND_HEIGHT :: int
  MAX_GROUND_HEIGHT :: int
  DESTRUCTION_FADE_SPEED :: int

text \<open>The defaults of the dataclass, which is how \<^verbatim>\<open>Game.__init__\<close> builds it.\<close>

definition default_config :: GameConfig where
  "default_config =
     \<lparr>SCREEN_WIDTH = 800, SCREEN_HEIGHT = 600, FPS = 60, GRAVITY = 0.5,
      TERRAIN_RESOLUTION = 2, MIN_GROUND_HEIGHT = 100, MAX_GROUND_HEIGHT = 200,
      DESTRUCTION_FADE_SPEED = 5\<rparr>"

section \<open>Terrain\<close>

text \<open>
  The logical state of \<^verbatim>\<open>Terrain\<close> is its configuration and its height map; the two
  pygame surfaces and \<^verbatim>\<open>render_terrain\<close> only draw and are left out.
\<close>

record Terrain =
  config :: GameConfig
  height_map :: "int list"

text \<open>
  The body of the loop of \<^verbatim>\<open>generate_terrain\<close> at one \<open>x\<close>. The phase is drawn with
  \<^verbatim>\<open>random.uniform(0, 2 * pi)\<close> in the source and is a parameter here.
\<close>

definition terrain_sample :: "GameConfig \<Rightarrow> real \<Rightarrow> int \<Rightarrow> int" where
  "terrain_sample cfg phase x =
     (let height = real_of_int (MIN_GROUND_HEIGHT cfg);
          height = height + sin (real_of_int x * 0.02 + phase) * 30;
          height = height + sin (real_of_int x * 0.05 + phase * 2) * 15;
          height = height + sin (real_of_int x * 0.01 + phase * 0.5) * 45;
          height = min (max height (real_of_int (MIN_GROUND_HEIGHT cfg)))
                       (real_of_int (MAX_GROUND_HEIGHT cfg))
      in py_int height)"

definition generate_terrain :: "GameConfig \<Rightarrow> real \<Rightarrow> py_error + int list" where
  "generate_terrain cfg phase =
     (if TERRAIN_RESOLUTION cfg = 0 then Inl ValueError
      else Inr (map (terrain_sample cfg phase)
                  (py_range 0 (SCREEN_WIDTH cfg) (TERRAIN_RESOLUTION cfg))))"

text \<open>\<^verbatim>\<open>Terrain.__init__\<close>.\<close>

definition Terrain_init :: "GameConfig \<Rightarrow> real \<Rightarrow> py_error + Terrain" where
  "Terrain_init cfg phase =
     (case generate_terrain cfg phase of
        Inl e \<Rightarrow> Inl e
      | Inr hs \<Rightarrow> Inr \<lparr>config = cfg, height_map = hs\<rparr>)"

text \<open>
  One pass of the loop of \<^verbatim>\<open>apply_destruction\<close> at index \<open>i\<close>. The loop runs over
  \<^verbatim>\<open>range(impact_start, impact_end)\<close> with \<open>0 \<le> impact_start\<close> and
  \<open>impact_end \<le> len(height_map)\<close>, so the index is always inside the list (lemma
  \<open>impact_range_in_bounds\<close> below).
\<close>

definition crater_step :: "GameConfig \<Rightarrow> int \<Rightarrow> int \<Rightarrow> int \<Rightarrow> int list \<Rightarrow> int list" where
  "crater_step cfg x radius i hm =
     (let dist = \<bar>x - i * TERRAIN_RESOLUTION cfg\<bar>
      in if dist < radius then
           (let height_reduction = py_int (real_of_int (radius - dist) * 0.5)
            in hm[nat i := max (MIN_GROUND_HEIGHT cfg) (hm ! nat i - height_reduction)])
         else hm)"

definition impact_start :: "GameConfig \<Rightarrow> int \<Rightarrow> int \<Rightarrow> int" where
  "impact_start cfg x radius =
     max 0 (x div TERRAIN_RESOLUTION cfg - radius div TERRAIN_RESOLUTION cfg)"

definition impact_end :: "GameConfig \<Rightarrow> int list \<Rightarrow> int \<Rightarrow> int \<Rightarrow> int" where
  "impact_end cfg hm x radius =
     min (int (length hm)) ((x + radius) div TERRAIN_RESOLUTION cfg + 1)"

definition apply_destruction :: "Terrain \<Rightarrow> int \<Rightarrow> int \<Rightarrow> int \<Rightarrow> py_error + Terrain" where
  "apply_destruction t x y radius =
     (if TERRAIN_RESOLUTION (config t) = 0 then Inl ZeroDivisionError
      else Inr (t\<lparr>height_map :=
                  fold (crater_step (config t) x radius)
                    (py_range (impact_start (config t) x radius)
                              (impact_end (config t) (height_map t) x radius) 1)
                    (height_map t)\<rparr>))"

definition get_height_at :: "Terrain \<Rightarrow> int \<Rightarrow> py_error + int" where
  "get_height_at t x =
     (if x < 0 \<or> x \<ge> SCREEN_WIDTH (config t) then Inr (MIN_GROUND_HEIGHT (config t))
      else if TERRAIN_RESOLUTION (config t) = 0 then Inl ZeroDivisionError
      else (let index = x div TERRAIN_RESOLUTION (config t);
                index = min (int (length (height_map t)) - 1) index
            in py_index (height_map t) index))"

definition check_collision :: "Terrain \<Rightarrow> int \<Rightarrow> int \<Rightarrow> py_error + bool" where
  "check_collision t x y =
     (if x < 0 \<or> x \<ge> SCREEN_WIDTH (config t) \<or> y < 0 \<or> y \<ge> SCREEN_HEIGHT (config t)
      then Inr False
      else (case get_height_at t x of
              Inl e \<Rightarrow> Inl e
            | Inr h \<Rightarrow> (let terrain_height = SCREEN_HEIGHT (config t) - h
                        in Inr (y \<ge> terrain_height))))"

text \<open>
  The terrains of a game: the one \<^verbatim>\<open>Terrain.__init__\<close> generates, for some phase, and every
  terrain \<^verbatim>\<open>apply_destruction\<close> makes of one of them. \<open>craters t t'\<close> says that \<open>t'\<close>
  comes from \<open>t\<close> by a sequence of craters.
\<close>

inductive reachable_terrain :: "GameConfig \<Rightarrow> Terrain \<Rightarrow> bool" where
  generated: "Terrain_init cfg phase = Inr t \<Longrightarrow> reachable_terrain cfg t"
| cratered: "reachable_terrain cfg t \<Longrightarrow> apply_destruction t x y radius = Inr t' \<Longrightarrow>
     reachable_terrain cfg t'"

inductive craters :: "Terrain \<Rightarrow> Terrain \<Rightarrow> bool" where
  no_crater: "craters t t"
| one_more: "craters t t' \<Longrightarrow> apply_destruction t' x y radius = Inr t'' \<Longrightarrow> craters t t''"

section \<open>Combatants, abilities and status effects\<close>

text \<open>
  \<^verbatim>\<open>StatusEffect\<close> and its subclass \<^verbatim>\<open>AcidEffect\<close>. The class of the object decides which
  \<^verbatim>\<open>update\<close> runs; \<open>damage_per_second\<close> exists on \<^verbatim>\<open>AcidEffect\<close> only (it is 5 there)
  and is not read for the base class.
\<close>

datatype effect_class = StatusEffect_class | AcidEffect_class

record StatusEffect =
  effect_class :: effect_class
  duration :: real
  remaining_time :: real
  damage_per_second :: real

definition StatusEffect_init :: "real \<Rightarrow> StatusEffect" where
  "StatusEffect_init d =
     \<lparr>effect_class = StatusEffect_class, duration = d, remaining_time = d,
      damage_per_second = 0\<rparr>"

definition AcidEffect_init :: "real \<Rightarrow> StatusEffect" where
  "AcidEffect_init d =
     \<lparr>effect_class = AcidEffect_class, duration = d, remaining_time = d,
      damage_per_second = 5\<rparr>"

text \<open>
  \<^verbatim>\<open>Ability\<close> with its subclasses \<^verbatim>\<open>BiteAbility\<close> and \<^verbatim>\<open>AcidSprayAbility\<close>. The field
  \<open>range_a\<close> is the attribute \<^verbatim>\<open>range\<close>; \<^verbatim>\<open>area_effect\<close> of the acid spray is never read
  and is left out.
\<close>

datatype ability_class = BiteAbility_class | AcidSprayAbility_class

record Ability =
  ability_class :: ability_class
  cooldown :: real
  current_cooldown :: real
  damage :: real
  range_a :: real

definition BiteAbility_init :: Ability where
  "BiteAbility_init =
     \<lparr>ability_class = BiteAbility_class, cooldown = 2.0, current_cooldown = 0,
      damage = 20, range_a = 30\<rparr>"

definition AcidSprayAbility_init :: Ability where
  "AcidSprayAbility_init =
     \<lparr>ability_class = AcidSprayAbility_class, cooldown = 5.0, current_cooldown = 0,
      damage = 15, range_a = 50\<rparr>"

text \<open>\<^verbatim>\<open>Ability.update\<close>.\<close>

definition Ability_update :: "real \<Rightarrow> Ability \<Rightarrow> Ability" where
  "Ability_update dt a =
     (if current_cooldown a > 0 then a\<lparr>current_cooldown := current_cooldown a - dt\<rparr>
      else a)"

text \<open>
  \<^verbatim>\<open>Ant\<close>: the colour is only drawn and is left out; \<open>velocity\<close> is the two-element list
  of the source; \<open>abilities\<close> is the dictionary from names to abilities.
\<close>

record Ant =
  ant_x :: real
  ant_y :: real
  health :: real
  max_health :: real
  is_alive :: bool
  is_ai :: bool
  velocity :: "real \<times> real"
  direction :: int
  walking :: bool
  animation_frame :: int
  animation_timer :: real
  abilities :: "string \<rightharpoonup> Ability"
  active_effects :: "StatusEffect list"

definition Ant_init :: "real \<Rightarrow> real \<Rightarrow> bool \<Rightarrow> Ant" where
  "Ant_init px py ai =
     \<lparr>ant_x = px, ant_y = py, health = 100, max_health = 100, is_alive = True,
      is_ai = ai, velocity = (0, 0), direction = 1, walking = False,
      animation_frame = 0, animation_timer = 0,
      abilities = [''bite'' \<mapsto> BiteAbility_init, ''acid_spray'' \<mapsto> AcidSprayAbility_init],
      active_effects = []\<rparr>"

text \<open>\<^verbatim>\<open>Ant.take_damage\<close>.\<close>

definition take_damage :: "real \<Rightarrow> Ant \<Rightarrow> Ant" where
  "take_damage amount self =
     (if \<not> is_alive self then self
      else (let self = self\<lparr>health := max 0 (health self - amount)\<rparr>
            in if health self \<le> 0 then self\<lparr>is_alive := False\<rparr> else self))"

text \<open>\<^verbatim>\<open>Ant.apply_effect\<close>.\<close>

definition apply_effect :: "string \<Rightarrow> real \<Rightarrow> Ant \<Rightarrow> Ant" where
  "apply_effect effect_type d self =
     (if effect_type = ''acid''
      then self\<lparr>active_effects := active_effects self @ [AcidEffect_init d]\<rparr>
      else self)"

text \<open>
  \<^verbatim>\<open>StatusEffect.update\<close> and \<^verbatim>\<open>AcidEffect.update\<close>: the result is the returned flag, the
  effect after the call and the target after the call.
\<close>

definition StatusEffect_update :: "real \<Rightarrow> StatusEffect \<Rightarrow> Ant \<Rightarrow> bool \<times> StatusEffect \<times> Ant" where
  "StatusEffect_update dt e target =
     (let e = e\<lparr>remaining_time := remaining_time e - dt\<rparr>
      in (remaining_time e > 0, e, target))"

definition AcidEffect_update :: "real \<Rightarrow> StatusEffect \<Rightarrow> Ant \<Rightarrow> bool \<times> StatusEffect \<times> Ant" where
  "AcidEffect_update dt e target =
     (let target = take_damage (damage_per_second e * dt) target
      in StatusEffect_update dt e target)"

definition effect_update :: "real \<Rightarrow> StatusEffect \<Rightarrow> Ant \<Rightarrow> bool \<times> StatusEffect \<times> Ant" where
  "effect_update dt e target =
     (case effect_class e of
        StatusEffect_class \<Rightarrow> StatusEffect_update dt e target
      | AcidEffect_class \<Rightarrow> AcidEffect_update dt e target)"

text \<open>
  The list comprehension of \<^verbatim>\<open>Ant.update\<close>,
  \<^verbatim>\<open>[effect for effect in self.active_effects if effect.update(dt, self)]\<close>: the effects
  that are kept, and the ant after all the calls.
\<close>

fun update_effects :: "real \<Rightarrow> StatusEffect list \<Rightarrow> Ant \<Rightarrow> StatusEffect list \<times> Ant" where
  "update_effects dt [] self = ([], self)"
| "update_effects dt (e # es) self =
     (case effect_update dt e self of
        (keep, e', self') \<Rightarrow>
          (case update_effects dt es self' of
             (es', self'') \<Rightarrow> (if keep then e' # es' else es', self'')))"

text \<open>\<^verbatim>\<open>math.hypot\<close>.\<close>

definition hypot :: "real \<Rightarrow> real \<Rightarrow> real" where
  "hypot a b = sqrt (a\<^sup>2 + b\<^sup>2)"

text \<open>
  \<^verbatim>\<open>activate\<close> of the two abilities: the returned flag, the ability after the call and the
  target after the call. The user is only read. In the game the user and the target are
  the two different ants.
\<close>

definition BiteAbility_activate :: "Ability \<Rightarrow> Ant \<Rightarrow> Ant \<Rightarrow> bool \<times> Ability \<times> Ant" where
  "BiteAbility_activate self user target =
     (if current_cooldown self > 0 then (False, self, target)
      else (let distance = hypot (ant_x user - ant_x target) (ant_y user - ant_y target)
            in if distance \<le> range_a self then
                 (let target = take_damage (damage self) target;
                      self = self\<lparr>current_cooldown := cooldown self\<rparr>
                  in (True, self, target))
               else (False, self, target)))"

definition AcidSprayAbility_activate :: "Ability \<Rightarrow> Ant \<Rightarrow> Ant \<Rightarrow> bool \<times> Ability \<times> Ant" where
  "AcidSprayAbility_activate self user target =
     (if current_cooldown self > 0 then (False, self, target)
      else (let distance = hypot (ant_x user - ant_x target) (ant_y user - ant_y target)
            in if distance \<le> range_a self then
                 (let target = take_damage (damage self) target;
                      target = apply_effect ''acid'' 3.0 target;
                      self = self\<lparr>current_cooldown := cooldown self\<rparr>
                  in (True, self, target))
               else (False, self, target)))"

definition activate :: "Ability \<Rightarrow> Ant \<Rightarrow> Ant \<Rightarrow> bool \<times> Ability \<times> Ant" where
  "activate self user target =
     (case ability_class self of
        BiteAbility_class \<Rightarrow> BiteAbility_activate self user target
      | AcidSprayAbility_class \<Rightarrow> AcidSprayAbility_activate self user target)"

text \<open>
  \<^verbatim>\<open>Ant.use_ability\<close>: the returned flag, the user after the call (its ability object may
  have a new cooldown) and the target after the call.
\<close>

definition use_ability :: "string \<Rightarrow> Ant \<Rightarrow> Ant \<Rightarrow> bool \<times> Ant \<times> Ant" where
  "use_ability ability_name self target =
     (case abilities self ability_name of
        Some a \<Rightarrow>
          (case activate a self target of
             (ok, a', target') \<Rightarrow>
               (ok, self\<lparr>abilities := (abilities self)(ability_name \<mapsto> a')\<rparr>, target'))
      | None \<Rightarrow> (False, self, target))"

text \<open>\<^verbatim>\<open>Ant.update\<close>.\<close>

definition Ant_update :: "real \<Rightarrow> Terrain \<Rightarrow> Ant \<Rightarrow> py_error + Ant" where
  "Ant_update dt terrain self =
     (if \<not> is_alive self then Inr self
      else
        (let self = self\<lparr>ant_x := ant_x self + fst (velocity self)\<rparr>;
             self = self\<lparr>ant_y := ant_y self + snd (velocity self)\<rparr>
         in case get_height_at terrain (py_int (ant_x self)) of
              Inl e \<Rightarrow> Inl e
            | Inr ground_height \<Rightarrow>
                (let ground = real_of_int (SCREEN_HEIGHT (config terrain) - ground_height);
                     self = (if ant_y self > ground
                             then self\<lparr>ant_y := ground, velocity := (fst (velocity self), 0)\<rparr>
                             else self\<lparr>velocity := (fst (velocity self),
                                          snd (velocity self) + GRAVITY (config terrain))\<rparr>);
                     self = self\<lparr>abilities :=
                               (\<lambda>name. map_option (Ability_update dt) (abilities self name))\<rparr>
                 in case update_effects dt (active_effects self) self of
                      (kept, self) \<Rightarrow>
                        (let self = self\<lparr>active_effects := kept\<rparr>
                         in if walking self then
                              (let self = self\<lparr>animation_timer := animation_timer self + dt\<rparr>
                               in if animation_timer self \<ge> 0.1
                                  then Inr (self\<lparr>animation_timer := 0,
                                             animation_frame := (animation_frame self + 1) mod 4\<rparr>)
                                  else Inr self)
                            else Inr self))))"

section \<open>Projectile\<close>

record Projectile =
  proj_x :: real
  proj_y :: real
  proj_velocity :: "real \<times> real"
  proj_damage :: real
  active :: bool
  trail :: "(real \<times> real) list"
  trail_length :: nat

definition Projectile_init :: "real \<Rightarrow> real \<Rightarrow> real \<times> real \<Rightarrow> Projectile" where
  "Projectile_init px py v =
     \<lparr>proj_x = px, proj_y = py, proj_velocity = v, proj_damage = 30, active = True,
      trail = [], trail_length = 10\<rparr>"

text \<open>\<^verbatim>\<open>Projectile.update\<close>.\<close>

definition Projectile_update :: "GameConfig \<Rightarrow> Projectile \<Rightarrow> Projectile" where
  "Projectile_update cfg self =
     (let self = self\<lparr>trail := trail self @ [(proj_x self, proj_y self)]\<rparr>;
          self = (if length (trail self) > trail_length self
                  then self\<lparr>trail := tl (trail self)\<rparr> else self);
          self = self\<lparr>proj_velocity :=
                    (fst (proj_velocity self), snd (proj_velocity self) + GRAVITY cfg)\<rparr>;
          self = self\<lparr>proj_x := proj_x self + fst (proj_velocity self)\<rparr>;
          self = self\<lparr>proj_y := proj_y self + snd (proj_velocity self)\<rparr>
      in self)"

section \<open>The opponent's controller\<close>

text \<open>
  The random source. \<^verbatim>\<open>random.random()\<close> returns the next raw sample of the generator, a
  float in \<open>[0, 1)\<close>, and \<^verbatim>\<open>random.uniform(a, b)\<close> returns \<open>a + (b - a) * random()\<close>. The
  generator is the sequence of the raw samples still to come.
\<close>

type_synonym rng = "nat \<Rightarrow> real"

definition random_random :: "rng \<Rightarrow> real \<times> rng" where
  "random_random g = (g 0, \<lambda>n. g (Suc n))"

definition random_uniform :: "real \<Rightarrow> real \<Rightarrow> rng \<Rightarrow> real \<times> rng" where
  "random_uniform a b g = (a + (b - a) * g 0, \<lambda>n. g (Suc n))"

text \<open>
  \<^verbatim>\<open>AIController\<close>: \<^verbatim>\<open>self.ant\<close> is a reference to the enemy ant of the game, so the ant
  is passed to \<open>AIController_update\<close> and returned by it; \<^verbatim>\<open>config\<close> and \<^verbatim>\<open>target\<close> are
  never read.
\<close>

record AIController =
  state :: string
  state_timer :: real
  difficulty :: real

definition AIController_init :: AIController where
  "AIController_init = \<lparr>state = ''idle'', state_timer = 0, difficulty = 0.7\<rparr>"

text \<open>
  The ability choice at the head of the \<^verbatim>\<open>attack\<close> branch. The operator \<^verbatim>\<open>and\<close> evaluates
  its right operand, and so draws a sample, only when the left one holds.
\<close>

definition attack_choice :: "AIController \<Rightarrow> real \<Rightarrow> Ant \<Rightarrow> Ant \<Rightarrow> rng \<Rightarrow> Ant \<times> Ant \<times> rng" where
  "attack_choice self distance_to_player ant player_ant g =
     (if distance_to_player < 120 then
        (case random_random g of
           (r1, g1) \<Rightarrow>
             if r1 < difficulty self then
               (if distance_to_player < 40 then
                  (case random_random g1 of
                     (r2, g2) \<Rightarrow>
                       if r2 < 0.7 then
                         (case use_ability ''bite'' ant player_ant of
                            (ok, ant', player') \<Rightarrow> (ant', player', g2))
                       else
                         (case use_ability ''acid_spray'' ant player_ant of
                            (ok, ant', player') \<Rightarrow> (ant', player', g2)))
                else
                  (case use_ability ''acid_spray'' ant player_ant of
                     (ok, ant', player') \<Rightarrow> (ant', player', g1)))
             else (ant, player_ant, g1))
      else (ant, player_ant, g))"

text \<open>
  \<^verbatim>\<open>AIController.update\<close>: the controller, its ant, the player's ant and the random source
  after the call. The terrain argument is never read.
\<close>

definition AIController_update ::
  "real \<Rightarrow> AIController \<Rightarrow> Ant \<Rightarrow> Ant \<Rightarrow> rng \<Rightarrow> AIController \<times> Ant \<times> Ant \<times> rng" where
  "AIController_update dt self ant player_ant g =
     (if \<not> is_alive ant then (self, ant, player_ant, g)
      else
        (let self = self\<lparr>state_timer := state_timer self - dt\<rparr>;
             distance_to_player = \<bar>ant_x ant - ant_x player_ant\<bar>
         in if state self = ''idle'' then
              (if state_timer self \<le> 0 then
                 (if distance_to_player < 100
                  then (self\<lparr>state := ''attack'', state_timer := 2.0\<rparr>, ant, player_ant, g)
                  else (case random_uniform 1.0 3.0 g of
                          (u, g') \<Rightarrow>
                            (self\<lparr>state := ''move'', state_timer := u\<rparr>, ant, player_ant, g')))
               else (self, ant, player_ant, g))
            else if state self = ''move'' then
              (if state_timer self \<le> 0 \<or> distance_to_player < 50
               then (case random_uniform 0.5 1.5 g of
                       (u, g') \<Rightarrow>
                         (self\<lparr>state := ''idle'', state_timer := u\<rparr>, ant, player_ant, g'))
               else (let direction = (if ant_x player_ant > ant_x ant then 1 else - 1)
                     in case random_random g of
                          (r, g') \<Rightarrow>
                            (let direction = (if r < 0.2 then direction * (- 1) else direction)
                             in (self, ant\<lparr>ant_x := ant_x ant + direction * 2\<rparr>,
                                 player_ant, g'))))
            else if state self = ''attack'' then
              (case attack_choice self distance_to_player ant player_ant g of
                 (ant', player', g1) \<Rightarrow>
                   (case random_uniform 1.0 2.0 g1 of
                      (u, g2) \<Rightarrow>
                        (self\<lparr>state := ''idle'', state_timer := u\<rparr>, ant', player', g2)))
            else (self, ant, player_ant, g)))"

section \<open>The game's update\<close>

datatype GameState = MENU | PLAYING | PAUSED | GAME_OVER

record Game =
  game_config :: GameConfig
  game_state :: GameState
  terrain :: Terrain
  player :: Ant
  enemy :: Ant
  ai_controller :: AIController
  projectile :: "Projectile option"
  charging_power :: real

text \<open>
  The body of \<^verbatim>\<open>if self.projectile and self.projectile.active:\<close> in \<^verbatim>\<open>Game.update\<close>: the
  terrain, the enemy and the projectile after it.
\<close>

definition projectile_tick ::
  "GameConfig \<Rightarrow> Terrain \<Rightarrow> Ant \<Rightarrow> Projectile \<Rightarrow> py_error + (Terrain \<times> Ant \<times> Projectile)" where
  "projectile_tick cfg t en p =
     (let p = Projectile_update cfg p
      in case check_collision t (py_int (proj_x p)) (py_int (proj_y p)) of
           Inl e \<Rightarrow> Inl e
         | Inr hit \<Rightarrow>
             (case (if hit then
                      (case apply_destruction t (py_int (proj_x p)) (py_int (proj_y p)) 20 of
                         Inl e \<Rightarrow> Inl e
                       | Inr t' \<Rightarrow> Inr (t', p\<lparr>active := False\<rparr>))
                    else Inr (t, p)) of
                Inl e \<Rightarrow> Inl e
              | Inr (t, p) \<Rightarrow>
                  (let distance = hypot (proj_x p - ant_x en) (proj_y p - ant_y en)
                   in if distance < 15
                      then Inr (t, take_damage (proj_damage p) en, p\<lparr>active := False\<rparr>)
                      else Inr (t, en, p))))"

text \<open>\<^verbatim>\<open>Game.update\<close>.\<close>

definition Game_update :: "real \<Rightarrow> Game \<Rightarrow> rng \<Rightarrow> py_error + (Game \<times> rng)" where
  "Game_update dt self g =
     (case Ant_update dt (terrain self) (player self) of
        Inl e \<Rightarrow> Inl e
      | Inr pl \<Rightarrow>
          (case Ant_update dt (terrain self) (enemy self) of
             Inl e \<Rightarrow> Inl e
           | Inr en \<Rightarrow>
               (case AIController_update dt (ai_controller self) en pl g of
                  (ai, en, pl, g) \<Rightarrow>
                    (let self = self\<lparr>player := pl, enemy := en, ai_controller := ai\<rparr>
                     in case (case projectile self of
                                None \<Rightarrow> Inr self
                              | Some p \<Rightarrow>
                                  if active p then
                                    (case projectile_tick (game_config self) (terrain self)
                                            (enemy self) p of
                                       Inl e \<Rightarrow> Inl e
                                     | Inr (t, en, p) \<Rightarrow>
                                         Inr (self\<lparr>terrain := t, enemy := en,
                                                   projectile := Some p\<rparr>))
                                  else Inr self) of
                          Inl e \<Rightarrow> Inl e
                        | Inr self \<Rightarrow>
                            if \<not> is_alive (player self) \<or> \<not> is_alive (enemy self)
                            then Inr (self\<lparr>game_state := GAME_OVER\<rparr>, g)
                            else Inr (self, g)))))"

section \<open>Damage intake\<close>

lemma take_damage_dead: "\<not> is_alive a \<Longrightarrow> take_damage amount a = a"
  by (simp add: take_damage_def)

lemma take_damage_health_nonneg: "0 \<le> health a \<Longrightarrow> 0 \<le> health (take_damage amount a)"
  by (simp add: take_damage_def Let_def)

lemma take_damage_alive_iff:
  "(is_alive a \<longleftrightarrow> 0 < health a) \<Longrightarrow>
   (is_alive (take_damage amount a) \<longleftrightarrow> 0 < health (take_damage amount a))"
  by (auto simp add: take_damage_def Let_def)

lemma fold_take_damage_dead: "\<not> is_alive a \<Longrightarrow> fold take_damage amounts a = a"
  by (induction amounts) (simp_all add: take_damage_dead)

lemma fold_take_damage_nonneg:
  "0 \<le> health a \<Longrightarrow> 0 \<le> health (fold take_damage amounts a)"
  by (induction amounts arbitrary: a) (simp_all add: take_damage_health_nonneg)

lemma fold_take_damage_alive_iff:
  "(is_alive a \<longleftrightarrow> 0 < health a) \<Longrightarrow>
   (is_alive (fold take_damage amounts a) \<longleftrightarrow> 0 < health (fold take_damage amounts a))"
proof (induction amounts arbitrary: a)
  case Nil
  then show ?case by simp
next
  case (Cons m ms)
  have "is_alive (take_damage m a) \<longleftrightarrow> 0 < health (take_damage m a)"
    using Cons.prems by (rule take_damage_alive_iff)
  from Cons.IH [OF this] show ?case by simp
qed

lemma effect_update_dead:
  "\<not> is_alive a \<Longrightarrow> snd (snd (effect_update dt e a)) = a"
  by (simp add: effect_update_def StatusEffect_update_def AcidEffect_update_def
      take_damage_dead Let_def split: effect_class.splits)

lemma apply_effect_health: "health (apply_effect ty d a) = health a"
  by (simp add: apply_effect_def)

lemma apply_effect_alive: "is_alive (apply_effect ty d a) = is_alive a"
  by (simp add: apply_effect_def)

text \<open>
  Claim C5. Over every sequence of \<open>take_damage\<close> calls the health never goes below 0
  (it starts at 100); on a living ant \<open>take_damage\<close> clears \<open>is_alive\<close> exactly when the
  health it leaves is 0, and along every sequence the ant is alive exactly while its
  health is positive; once \<open>is_alive\<close> is false, further \<open>take_damage\<close> calls, applied
  effects and effect updates leave health and \<open>is_alive\<close> as they are.
\<close>

theorem damage_floor:
  "(0 \<le> health a \<longrightarrow> 0 \<le> health (fold take_damage amounts a))
   \<and> (is_alive a \<longrightarrow>
        (\<not> is_alive (take_damage amount a) \<longleftrightarrow> health (take_damage amount a) = 0))
   \<and> ((is_alive a \<longleftrightarrow> 0 < health a) \<longrightarrow>
        (is_alive (fold take_damage amounts a) \<longleftrightarrow> 0 < health (fold take_damage amounts a)))
   \<and> (\<not> is_alive a \<longrightarrow>
        fold take_damage amounts a = a
        \<and> health (apply_effect ty d a) = health a
        \<and> is_alive (apply_effect ty d a) = is_alive a
        \<and> snd (snd (effect_update dt e a)) = a)"
proof (intro conjI impI)
  assume "is_alive a"
  then show "(\<not> is_alive (take_damage amount a)) = (health (take_damage amount a) = 0)"
    by (auto simp add: take_damage_def Let_def)
qed (simp_all add: fold_take_damage_nonneg fold_take_damage_alive_iff fold_take_damage_dead
       apply_effect_health apply_effect_alive effect_update_dead)

theorem damage_floor_witness:
  "0 \<le> health (fold take_damage [30, 50] (Ant_init 100 450 False))
   \<and> health (fold take_damage [30, 50, 40, 10] (Ant_init 100 450 False)) = 0
   \<and> \<not> is_alive (fold take_damage [30, 50, 40, 10] (Ant_init 100 450 False))
   \<and> \<not> is_alive (take_damage 100 (Ant_init 100 450 False))
   \<and> is_alive (take_damage 99 (Ant_init 100 450 False))
   \<and> fold take_damage [5, 7] (take_damage 100 (Ant_init 100 450 False))
       = take_damage 100 (Ant_init 100 450 False)
   \<and> health (apply_effect ''acid'' 3 (take_damage 100 (Ant_init 100 450 False))) = 0
   \<and> snd (snd (effect_update 1 (AcidEffect_init 3) (take_damage 100 (Ant_init 100 450 False))))
       = take_damage 100 (Ant_init 100 450 False)"
proof -
  let ?a = "Ant_init 100 450 False"
  let ?d = "take_damage 100 ?a"
  have alive: "is_alive ?a" and h: "0 \<le> health ?a" and inv: "is_alive ?a \<longleftrightarrow> 0 < health ?a"
    by (simp_all add: Ant_init_def)
  have hd: "health ?d = 0" and h99: "health (take_damage 99 ?a) \<noteq> 0"
    by (simp_all add: Ant_init_def take_damage_def Let_def)
  have z: "health (fold take_damage [30, 50, 40, 10] ?a) = 0"
    by (simp add: Ant_init_def take_damage_def Let_def)
  from damage_floor [of ?a "[30, 50]" 100 "''acid''" 3 1 "AcidEffect_init 3"] h alive hd
  have 0: "0 \<le> health (fold take_damage [30, 50] ?a)" and dead: "\<not> is_alive ?d"
    by blast+
  from damage_floor [of ?a "[30, 50, 40, 10]" 99 "''acid''" 3 1 "AcidEffect_init 3"] inv z alive h99
  have 1: "\<not> is_alive (fold take_damage [30, 50, 40, 10] ?a)"
    and 3: "is_alive (take_damage 99 ?a)"
    by simp_all
  from damage_floor [of ?d "[5, 7]" 1 "''acid''" 3 1 "AcidEffect_init 3"] dead hd
  have 2: "fold take_damage [5, 7] ?d = ?d"
    and 4: "health (apply_effect ''acid'' 3 ?d) = 0"
    and 5: "snd (snd (effect_update 1 (AcidEffect_init 3) ?d)) = ?d"
    by simp_all
  from 0 z 1 dead 3 2 4 5 show ?thesis by blast
qed

section \<open>Cooldowns\<close>

lemma Ability_update_cooldown:
  "current_cooldown (Ability_update dt a) =
     (if 0 < current_cooldown a then current_cooldown a - dt else current_cooldown a)"
  by (simp add: Ability_update_def)

lemma fold_Ability_update_lower:
  "\<forall>dt \<in> set dts. 0 \<le> dt \<and> dt \<le> D \<Longrightarrow> - D \<le> current_cooldown a \<Longrightarrow>
   - D \<le> current_cooldown (fold Ability_update dts a)"
proof (induction dts arbitrary: a)
  case Nil
  then show ?case by simp
next
  case (Cons dt dts)
  have "- D \<le> current_cooldown (Ability_update dt a)"
    using Cons.prems by (auto simp add: Ability_update_cooldown)
  with Cons show ?case by simp
qed

lemma fold_Ability_update_upper:
  "\<forall>dt \<in> set dts. 0 \<le> dt \<Longrightarrow>
   current_cooldown (fold Ability_update dts a) \<le> current_cooldown a"
proof (induction dts arbitrary: a)
  case Nil
  then show ?case by simp
next
  case (Cons dt dts)
  have "current_cooldown (Ability_update dt a) \<le> current_cooldown a"
    using Cons.prems by (simp add: Ability_update_cooldown)
  moreover have "current_cooldown (fold Ability_update dts (Ability_update dt a))
      \<le> current_cooldown (Ability_update dt a)"
    using Cons by simp
  ultimately show ?case by simp
qed

text \<open>
  The cooldown is not floored at 0: a bite is used (its cooldown is then 2.0) and seven
  frames of 0.3 seconds later the remaining cooldown is below zero.
\<close>

theorem cooldown_tick_counterexample:
  "current_cooldown
     (fold Ability_update [0.3, 0.3, 0.3, 0.3, 0.3, 0.3, 0.3]
        (BiteAbility_init\<lparr>current_cooldown := cooldown BiteAbility_init\<rparr>)) < 0"
  by (simp add: Ability_update_def BiteAbility_init_def)

text \<open>
  Claim C3, as the code has it. A tick takes exactly \<open>dt\<close> off a remaining cooldown that
  is positive and leaves one that is 0 or less as it is. There is no floor at 0: the
  value may end below zero, by less than the largest step. Over ticks with
  \<open>0 \<le> dt \<le> D\<close> the remaining cooldown never rises and, once it is at least \<open>- D\<close>,
  stays at least \<open>- D\<close>.
\<close>

theorem cooldown_tick:
  "(0 < current_cooldown a \<longrightarrow>
      current_cooldown (Ability_update dt a) = current_cooldown a - dt)
   \<and> (current_cooldown a \<le> 0 \<longrightarrow> Ability_update dt a = a)
   \<and> ((\<forall>dt \<in> set dts. 0 \<le> dt \<and> dt \<le> D) \<and> - D \<le> current_cooldown a \<longrightarrow>
        - D \<le> current_cooldown (fold Ability_update dts a)
        \<and> current_cooldown (fold Ability_update dts a) \<le> current_cooldown a)"
proof (intro conjI impI)
  assume h: "(\<forall>dt \<in> set dts. 0 \<le> dt \<and> dt \<le> D) \<and> - D \<le> current_cooldown a"
  then show "- D \<le> current_cooldown (fold Ability_update dts a)"
    by (simp add: fold_Ability_update_lower)
  from h have "\<forall>dt \<in> set dts. 0 \<le> dt" by simp
  then show "current_cooldown (fold Ability_update dts a) \<le> current_cooldown a"
    by (rule fold_Ability_update_upper)
qed (simp_all add: Ability_update_def)

theorem cooldown_tick_witness:
  "current_cooldown (Ability_update 0.5 (BiteAbility_init\<lparr>current_cooldown := 2\<rparr>)) = 1.5
   \<and> Ability_update 0.5 BiteAbility_init = BiteAbility_init
   \<and> - 1 \<le> current_cooldown
         (fold Ability_update [0.5, 1, 1] (BiteAbility_init\<lparr>current_cooldown := 2\<rparr>))"
proof -
  let ?a = "BiteAbility_init\<lparr>current_cooldown := 2\<rparr>"
  have 1: "0 < current_cooldown ?a" by simp
  have 2: "current_cooldown BiteAbility_init \<le> 0" by (simp add: BiteAbility_init_def)
  have 3: "(\<forall>dt \<in> set [0.5, 1, 1::real]. 0 \<le> dt \<and> dt \<le> 1) \<and> - 1 \<le> current_cooldown ?a"
    by simp
  from cooldown_tick [of ?a "0.5" "[0.5, 1, 1]" 1] 1 3
  have a: "current_cooldown (Ability_update 0.5 ?a) = 1.5"
    and c: "- 1 \<le> current_cooldown (fold Ability_update [0.5, 1, 1] ?a)"
    by simp_all
  from cooldown_tick [of BiteAbility_init "0.5" "[]" 0] 2
  have b: "Ability_update 0.5 BiteAbility_init = BiteAbility_init" by blast
  from a b c show ?thesis by blast
qed

section \<open>Ability activation\<close>

lemma hypot_le_iff: "hypot a b \<le> r \<longleftrightarrow> 0 \<le> r \<and> a\<^sup>2 + b\<^sup>2 \<le> r\<^sup>2"
  unfolding hypot_def
proof
  assume h: "sqrt (a\<^sup>2 + b\<^sup>2) \<le> r"
  have "0 \<le> sqrt (a\<^sup>2 + b\<^sup>2)" by simp
  with h have r: "0 \<le> r" by linarith
  then have "sqrt (r\<^sup>2) = r" by simp
  with h have "sqrt (a\<^sup>2 + b\<^sup>2) \<le> sqrt (r\<^sup>2)" by simp
  then have "a\<^sup>2 + b\<^sup>2 \<le> r\<^sup>2" by (simp only: real_sqrt_le_iff)
  with r show "0 \<le> r \<and> a\<^sup>2 + b\<^sup>2 \<le> r\<^sup>2" by simp
next
  assume "0 \<le> r \<and> a\<^sup>2 + b\<^sup>2 \<le> r\<^sup>2"
  then show "sqrt (a\<^sup>2 + b\<^sup>2) \<le> r" by (simp add: real_le_lsqrt)
qed

lemma hypot_less_iff: "hypot a b < r \<longleftrightarrow> 0 < r \<and> a\<^sup>2 + b\<^sup>2 < r\<^sup>2"
  unfolding hypot_def
proof
  assume h: "sqrt (a\<^sup>2 + b\<^sup>2) < r"
  have "0 \<le> sqrt (a\<^sup>2 + b\<^sup>2)" by simp
  with h have r: "0 < r" by linarith
  then have "sqrt (r\<^sup>2) = r" by simp
  with h have "sqrt (a\<^sup>2 + b\<^sup>2) < sqrt (r\<^sup>2)" by simp
  then have "a\<^sup>2 + b\<^sup>2 < r\<^sup>2" by (simp only: real_sqrt_less_iff)
  with r show "0 < r \<and> a\<^sup>2 + b\<^sup>2 < r\<^sup>2" by simp
next
  assume h: "0 < r \<and> a\<^sup>2 + b\<^sup>2 < r\<^sup>2"
  then have "sqrt (a\<^sup>2 + b\<^sup>2) < sqrt (r\<^sup>2)" by (simp only: real_sqrt_less_iff)
  with h show "sqrt (a\<^sup>2 + b\<^sup>2) < r" by simp
qed

text \<open>
  Claim C4. \<open>activate\<close> returns false and leaves the ability and the target as they are
  when the remaining cooldown is positive or the straight-line distance from the user
  to the target exceeds the range; otherwise it passes the ability's damage to the
  target's \<open>take_damage\<close> (a living target's health becomes \<open>max 0 (health - damage)\<close>
  and it dies when that is 0; a dead target is left as it is), the acid spray also
  appends to the target's effect list a new acid effect of duration 3, remaining time 3
  and 5 damage per second, the cooldown is reset to its duration, and it returns true.
  The user is only read.
\<close>

theorem activation_contract:
  "activate a user target =
     (if 0 < current_cooldown a
         \<or> range_a a < hypot (ant_x user - ant_x target) (ant_y user - ant_y target)
      then (False, a, target)
      else (True, a\<lparr>current_cooldown := cooldown a\<rparr>,
            (case ability_class a of
               BiteAbility_class \<Rightarrow> take_damage (damage a) target
             | AcidSprayAbility_class \<Rightarrow>
                 (take_damage (damage a) target)
                   \<lparr>active_effects :=
                      active_effects target @
                        [\<lparr>effect_class = AcidEffect_class, duration = 3,
                          remaining_time = 3, damage_per_second = 5\<rparr>]\<rparr>)))
   \<and> apply_effect ''acid'' 3 (take_damage (damage a) target) =
       (take_damage (damage a) target)
         \<lparr>active_effects :=
            active_effects target @
              [\<lparr>effect_class = AcidEffect_class, duration = 3, remaining_time = 3,
                damage_per_second = 5\<rparr>]\<rparr>
   \<and> take_damage (damage a) target =
       (if is_alive target
        then target\<lparr>health := max 0 (health target - damage a),
                    is_alive := 0 < health target - damage a\<rparr>
        else target)"
proof -
  have eff: "active_effects (take_damage (damage a) target) = active_effects target"
    by (simp add: take_damage_def Let_def)
  have 1: "activate a user target =
     (if 0 < current_cooldown a
         \<or> range_a a < hypot (ant_x user - ant_x target) (ant_y user - ant_y target)
      then (False, a, target)
      else (True, a\<lparr>current_cooldown := cooldown a\<rparr>,
            (case ability_class a of
               BiteAbility_class \<Rightarrow> take_damage (damage a) target
             | AcidSprayAbility_class \<Rightarrow>
                 (take_damage (damage a) target)
                   \<lparr>active_effects :=
                      active_effects target @
                        [\<lparr>effect_class = AcidEffect_class, duration = 3,
                          remaining_time = 3, damage_per_second = 5\<rparr>]\<rparr>)))"
    using eff
    by (simp add: activate_def BiteAbility_activate_def AcidSprayAbility_activate_def Let_def
        not_less apply_effect_def AcidEffect_init_def split: ability_class.splits)
  have 2: "apply_effect ''acid'' 3 (take_damage (damage a) target) =
       (take_damage (damage a) target)
         \<lparr>active_effects :=
            active_effects target @
              [\<lparr>effect_class = AcidEffect_class, duration = 3, remaining_time = 3,
                damage_per_second = 5\<rparr>]\<rparr>"
    using eff by (simp add: apply_effect_def AcidEffect_init_def)
  have 3: "take_damage (damage a) target =
       (if is_alive target
        then target\<lparr>health := max 0 (health target - damage a),
                    is_alive := 0 < health target - damage a\<rparr>
        else target)"
    by (cases target) (auto simp add: take_damage_def Let_def)
  from 1 2 3 show ?thesis by (intro conjI)
qed


theorem activation_contract_witness:
  "activate BiteAbility_init (Ant_init 100 450 False) (Ant_init 110 450 True)
     = (True, BiteAbility_init\<lparr>current_cooldown := 2\<rparr>,
        (Ant_init 110 450 True)\<lparr>health := 80\<rparr>)
   \<and> activate (BiteAbility_init\<lparr>current_cooldown := 1.5\<rparr>)
        (Ant_init 100 450 False) (Ant_init 110 450 True)
     = (False, BiteAbility_init\<lparr>current_cooldown := 1.5\<rparr>, Ant_init 110 450 True)
   \<and> activate AcidSprayAbility_init (Ant_init 100 450 False) (Ant_init 300 450 True)
     = (False, AcidSprayAbility_init, Ant_init 300 450 True)
   \<and> activate AcidSprayAbility_init (Ant_init 100 450 False) (Ant_init 130 450 True)
     = (True, AcidSprayAbility_init\<lparr>current_cooldown := 5\<rparr>,
        (Ant_init 130 450 True)
          \<lparr>health := 85,
            active_effects :=
              [\<lparr>effect_class = AcidEffect_class, duration = 3, remaining_time = 3,
                damage_per_second = 5\<rparr>]\<rparr>)
   \<and> activate AcidSprayAbility_init (Ant_init 100 450 False)
        ((Ant_init 130 450 True)\<lparr>health := 10\<rparr>)
     = (True, AcidSprayAbility_init\<lparr>current_cooldown := 5\<rparr>,
        (Ant_init 130 450 True)
          \<lparr>health := 0, is_alive := False,
            active_effects :=
              [\<lparr>effect_class = AcidEffect_class, duration = 3, remaining_time = 3,
                damage_per_second = 5\<rparr>]\<rparr>)"
proof -
  have near: "\<not> (30 < hypot (100 - 110) (450 - 450))"
    by (simp add: not_less hypot_le_iff)
  have far: "50 < hypot (100 - 300) (450 - 450)"
    by (simp add: not_le [symmetric] hypot_le_iff)
  have mid: "\<not> (50 < hypot (100 - 130) (450 - 450))"
    by (simp add: not_less hypot_le_iff)
  note act = activation_contract [THEN conjunct1]
  note dmg = activation_contract [THEN conjunct2, THEN conjunct2]
  have 1: "activate BiteAbility_init (Ant_init 100 450 False) (Ant_init 110 450 True)
     = (True, BiteAbility_init\<lparr>current_cooldown := 2\<rparr>,
        (Ant_init 110 450 True)\<lparr>health := 80\<rparr>)"
    unfolding act dmg using near
    by (simp add: BiteAbility_init_def Ant_init_def)
  have 2: "activate (BiteAbility_init\<lparr>current_cooldown := 1.5\<rparr>)
        (Ant_init 100 450 False) (Ant_init 110 450 True)
     = (False, BiteAbility_init\<lparr>current_cooldown := 1.5\<rparr>, Ant_init 110 450 True)"
    unfolding act by simp
  have 3: "activate AcidSprayAbility_init (Ant_init 100 450 False) (Ant_init 300 450 True)
     = (False, AcidSprayAbility_init, Ant_init 300 450 True)"
    unfolding act using far
    by (simp add: AcidSprayAbility_init_def Ant_init_def)
  have 4: "activate AcidSprayAbility_init (Ant_init 100 450 False) (Ant_init 130 450 True)
     = (True, AcidSprayAbility_init\<lparr>current_cooldown := 5\<rparr>,
        (Ant_init 130 450 True)
          \<lparr>health := 85,
            active_effects :=
              [\<lparr>effect_class = AcidEffect_class, duration = 3, remaining_time = 3,
                damage_per_second = 5\<rparr>]\<rparr>)"
    unfolding act dmg using mid
    by (simp add: AcidSprayAbility_init_def Ant_init_def)
  have 5: "activate AcidSprayAbility_init (Ant_init 100 450 False)
        ((Ant_init 130 450 True)\<lparr>health := 10\<rparr>)
     = (True, AcidSprayAbility_init\<lparr>current_cooldown := 5\<rparr>,
        (Ant_init 130 450 True)
          \<lparr>health := 0, is_alive := False,
            active_effects :=
              [\<lparr>effect_class = AcidEffect_class, duration = 3, remaining_time = 3,
                damage_per_second = 5\<rparr>]\<rparr>)"
    unfolding act dmg using mid
    by (simp add: AcidSprayAbility_init_def Ant_init_def)
  from 1 2 3 4 5 show ?thesis by blast
qed

lemma use_ability_eq:
  "use_ability name self target =
     (case abilities self name of
        None \<Rightarrow> (False, self, target)
      | Some a \<Rightarrow>
          if 0 < current_cooldown a
             \<or> range_a a < hypot (ant_x self - ant_x target) (ant_y self - ant_y target)
          then (False, self, target)
          else (True,
                self\<lparr>abilities := (abilities self)(name \<mapsto> a\<lparr>current_cooldown := cooldown a\<rparr>)\<rparr>,
                (case ability_class a of
                   BiteAbility_class \<Rightarrow> take_damage (damage a) target
                 | AcidSprayAbility_class \<Rightarrow>
                     apply_effect ''acid'' 3 (take_damage (damage a) target))))"
proof (cases "abilities self name")
  case None
  then show ?thesis by (simp add: use_ability_def)
next
  case (Some a)
  then have triv: "self\<lparr>abilities := (abilities self)(name \<mapsto> a)\<rparr> = self"
    by (simp add: map_upd_triv)
  show ?thesis
    using Some triv
    by (simp add: use_ability_def activate_def BiteAbility_activate_def
        AcidSprayAbility_activate_def Let_def not_less split: ability_class.splits)
qed

text \<open>
  \<open>use_ability\<close> does not look at \<open>is_alive\<close>: a dead ant whose bite is ready, ten
  units from its target, bites it for 20.
\<close>

theorem use_ability_dead_counterexample:
  "\<not> is_alive ((Ant_init 100 450 False)\<lparr>health := 0, is_alive := False\<rparr>)
   \<and> fst (use_ability ''bite'' ((Ant_init 100 450 False)\<lparr>health := 0, is_alive := False\<rparr>)
            (Ant_init 110 450 True))
   \<and> health (snd (snd (use_ability ''bite''
            ((Ant_init 100 450 False)\<lparr>health := 0, is_alive := False\<rparr>)
            (Ant_init 110 450 True)))) = 80
   \<and> health (Ant_init 110 450 True) = 100"
proof -
  have near: "\<not> (30 < hypot (100 - 110) (450 - 450))"
    by (simp add: not_less hypot_le_iff)
  show ?thesis
    using near
    by (simp add: use_ability_eq Ant_init_def BiteAbility_init_def take_damage_def Let_def)
qed

text \<open>
  Claim C2, as the code has it. For a user that is not alive \<open>use_ability\<close> behaves as
  for any other user: it returns false and changes nothing when the name is unknown,
  the cooldown is positive or the target is out of range, and otherwise activates the
  ability. What stops a dead opponent is its controller, whose update returns at once
  when its ant is not alive.
\<close>

theorem use_ability_dead_user:
  "\<not> is_alive self \<Longrightarrow>
   use_ability name self target =
     (case abilities self name of
        None \<Rightarrow> (False, self, target)
      | Some a \<Rightarrow>
          if 0 < current_cooldown a
             \<or> range_a a < hypot (ant_x self - ant_x target) (ant_y self - ant_y target)
          then (False, self, target)
          else (True,
                self\<lparr>abilities := (abilities self)(name \<mapsto> a\<lparr>current_cooldown := cooldown a\<rparr>)\<rparr>,
                (case ability_class a of
                   BiteAbility_class \<Rightarrow> take_damage (damage a) target
                 | AcidSprayAbility_class \<Rightarrow>
                     apply_effect ''acid'' 3 (take_damage (damage a) target))))
   \<and> AIController_update dt ctrl self target g = (ctrl, self, target, g)"
  by (simp add: use_ability_eq AIController_update_def)

theorem use_ability_dead_user_witness:
  "use_ability ''sting'' ((Ant_init 100 450 False)\<lparr>health := 0, is_alive := False\<rparr>)
       (Ant_init 110 450 True)
     = (False, (Ant_init 100 450 False)\<lparr>health := 0, is_alive := False\<rparr>, Ant_init 110 450 True)
   \<and> use_ability ''acid_spray'' ((Ant_init 100 450 False)\<lparr>health := 0, is_alive := False\<rparr>)
       (Ant_init 300 450 True)
     = (False, (Ant_init 100 450 False)\<lparr>health := 0, is_alive := False\<rparr>, Ant_init 300 450 True)
   \<and> AIController_update 0.1 AIController_init
       ((Ant_init 100 450 False)\<lparr>health := 0, is_alive := False\<rparr>) (Ant_init 110 450 True)
       (\<lambda>n. 0.5)
     = (AIController_init, (Ant_init 100 450 False)\<lparr>health := 0, is_alive := False\<rparr>,
        Ant_init 110 450 True, \<lambda>n. 0.5)"
proof -
  let ?u = "(Ant_init 100 450 False)\<lparr>health := 0, is_alive := False\<rparr>"
  have dead: "\<not> is_alive ?u" by simp
  have far: "50 < hypot (100 - 300) (450 - 450)"
    by (simp add: not_le [symmetric] hypot_le_iff)
  have 1: "use_ability ''sting'' ?u (Ant_init 110 450 True) = (False, ?u, Ant_init 110 450 True)"
    using use_ability_dead_user [OF dead, of "''sting''" "Ant_init 110 450 True"]
    by (simp add: Ant_init_def)
  have 2: "use_ability ''acid_spray'' ?u (Ant_init 300 450 True)
      = (False, ?u, Ant_init 300 450 True)"
    using use_ability_dead_user [OF dead, of "''acid_spray''" "Ant_init 300 450 True"] far
    by (simp add: Ant_init_def AcidSprayAbility_init_def)
  have 3: "AIController_update 0.1 AIController_init ?u (Ant_init 110 450 True) (\<lambda>n. 0.5)
     = (AIController_init, ?u, Ant_init 110 450 True, \<lambda>n. 0.5)"
    using use_ability_dead_user [OF dead] by blast
  from 1 2 3 show ?thesis by blast
qed

section \<open>Status effects\<close>

lemma effect_update_eq:
  "effect_update dt e holder =
     (0 < remaining_time e - dt, e\<lparr>remaining_time := remaining_time e - dt\<rparr>,
      (case effect_class e of
         StatusEffect_class \<Rightarrow> holder
       | AcidEffect_class \<Rightarrow> take_damage (damage_per_second e * dt) holder))"
  by (simp add: effect_update_def StatusEffect_update_def AcidEffect_update_def Let_def
      split: effect_class.splits)

lemma update_effects_kept:
  "fst (update_effects dt es a) =
     map (\<lambda>e. e\<lparr>remaining_time := remaining_time e - dt\<rparr>)
       (filter (\<lambda>e. 0 < remaining_time e - dt) es)"
  by (induction es arbitrary: a) (simp_all add: effect_update_eq case_prod_beta)

lemma update_effects_holder:
  "snd (update_effects dt es a) = fold (\<lambda>e h. snd (snd (effect_update dt e h))) es a"
  by (induction es arbitrary: a) (simp_all add: effect_update_eq case_prod_beta)

lemma take_damage_cong:
  "health a = health b \<Longrightarrow> is_alive a = is_alive b \<Longrightarrow>
   health (take_damage m a) = health (take_damage m b)
   \<and> is_alive (take_damage m a) = is_alive (take_damage m b)"
  by (simp add: take_damage_def Let_def)

lemma effect_damage_cong:
  "health a = health b \<Longrightarrow> is_alive a = is_alive b \<Longrightarrow>
   health (snd (snd (effect_update dt e a))) = health (snd (snd (effect_update dt e b)))
   \<and> is_alive (snd (snd (effect_update dt e a))) = is_alive (snd (snd (effect_update dt e b)))"
  using take_damage_cong [of a b]
  by (simp add: effect_update_eq split: effect_class.splits)

lemma fold_effect_damage_cong:
  "health a = health b \<Longrightarrow> is_alive a = is_alive b \<Longrightarrow>
   health (fold (\<lambda>e h. snd (snd (effect_update dt e h))) es a)
     = health (fold (\<lambda>e h. snd (snd (effect_update dt e h))) es b)
   \<and> is_alive (fold (\<lambda>e h. snd (snd (effect_update dt e h))) es a)
     = is_alive (fold (\<lambda>e h. snd (snd (effect_update dt e h))) es b)"
proof (induction es arbitrary: a b)
  case Nil
  then show ?case by simp
next
  case (Cons e es)
  from effect_damage_cong [OF Cons.prems, of dt e]
  have "health (snd (snd (effect_update dt e a))) = health (snd (snd (effect_update dt e b)))"
    and "is_alive (snd (snd (effect_update dt e a))) = is_alive (snd (snd (effect_update dt e b)))"
    by simp_all
  from Cons.IH [OF this] show ?case by simp
qed

lemma Ant_update_effects:
  assumes alive: "is_alive self"
    and gh: "get_height_at tr (py_int (ant_x self + fst (velocity self))) = Inr gh"
  shows "\<exists>self'. Ant_update dt tr self = Inr self'
     \<and> active_effects self' =
         map (\<lambda>e. e\<lparr>remaining_time := remaining_time e - dt\<rparr>)
           (filter (\<lambda>e. 0 < remaining_time e - dt) (active_effects self))
     \<and> health self' =
         health (fold (\<lambda>e h. snd (snd (effect_update dt e h))) (active_effects self) self)
     \<and> is_alive self' =
         is_alive (fold (\<lambda>e h. snd (snd (effect_update dt e h))) (active_effects self) self)"
proof -
  define s1 where "s1 = self\<lparr>ant_x := ant_x self + fst (velocity self)\<rparr>"
  define s2 where "s2 = s1\<lparr>ant_y := ant_y s1 + snd (velocity s1)\<rparr>"
  define ground where "ground = real_of_int (SCREEN_HEIGHT (config tr) - gh)"
  define s3 where "s3 = (if ant_y s2 > ground
                   then s2\<lparr>ant_y := ground, velocity := (fst (velocity s2), 0)\<rparr>
                   else s2\<lparr>velocity := (fst (velocity s2),
                                snd (velocity s2) + GRAVITY (config tr))\<rparr>)"
  define s4 where "s4 = s3\<lparr>abilities :=
                               (\<lambda>name. map_option (Ability_update dt) (abilities s3 name))\<rparr>"
  define kept where "kept = fst (update_effects dt (active_effects s4) s4)"
  define s5 where "s5 = snd (update_effects dt (active_effects s4) s4)"
  define s6 where "s6 = s5\<lparr>active_effects := kept\<rparr>"
  define s7 where "s7 = s6\<lparr>animation_timer := animation_timer s6 + dt\<rparr>"
  define s8 where "s8 = (if walking s6 then
                    (if animation_timer s7 \<ge> 0.1
                     then s7\<lparr>animation_timer := 0,
                             animation_frame := (animation_frame s7 + 1) mod 4\<rparr>
                     else s7)
                   else s6)"
  have eff4: "active_effects s4 = active_effects self"
    and h4: "health s4 = health self" and al4: "is_alive s4 = is_alive self"
    by (simp_all add: s4_def s3_def s2_def s1_def)
  have upd: "Ant_update dt tr self = Inr s8"
    using alive gh
    by (simp add: Ant_update_def Let_def s8_def s7_def s6_def s5_def kept_def s4_def s3_def
        s2_def s1_def ground_def split: prod.splits)
  have k: "active_effects s8 = kept" by (simp add: s8_def s7_def s6_def)
  have h8: "health s8 = health s5" and al8: "is_alive s8 = is_alive s5"
    by (simp_all add: s8_def s7_def s6_def)
  have s5f: "s5 = fold (\<lambda>e h. snd (snd (effect_update dt e h))) (active_effects self) s4"
    by (simp add: s5_def update_effects_holder eff4)
  from fold_effect_damage_cong [OF h4 al4, of dt "active_effects self"] s5f
  have "health s5 = health (fold (\<lambda>e h. snd (snd (effect_update dt e h))) (active_effects self) self)"
    and "is_alive s5 = is_alive (fold (\<lambda>e h. snd (snd (effect_update dt e h))) (active_effects self) self)"
    by simp_all
  with upd k h8 al8 show ?thesis
    by (simp add: kept_def update_effects_kept eff4)
qed


text \<open>
  Claim C6. One update of an effect with damage rate \<open>r\<close> passes \<open>r * dt\<close> to the holder's
  \<open>take_damage\<close> (a living holder's health becomes \<open>max 0 (health - r * dt)\<close>; the base
  class deals no damage), then takes \<open>dt\<close> off the remaining time and returns whether the
  remaining time is still positive. In \<open>Ant_update\<close> of a living ant every effect of the
  list is updated, so each one deals its damage, and exactly those whose remaining time
  is still positive are kept: an effect that expires in this tick has dealt its damage
  and is gone from the list after it.
\<close>

theorem effect_tick:
  "effect_update dt e holder =
     (0 < remaining_time e - dt, e\<lparr>remaining_time := remaining_time e - dt\<rparr>,
      (case effect_class e of
         StatusEffect_class \<Rightarrow> holder
       | AcidEffect_class \<Rightarrow> take_damage (damage_per_second e * dt) holder))
   \<and> (is_alive holder \<longrightarrow>
        health (take_damage (damage_per_second e * dt) holder)
          = max 0 (health holder - damage_per_second e * dt))
   \<and> (is_alive holder
        \<and> get_height_at tr (py_int (ant_x holder + fst (velocity holder))) = Inr gh \<longrightarrow>
        (\<exists>holder'. Ant_update dt tr holder = Inr holder'
           \<and> active_effects holder' =
               map (\<lambda>e. e\<lparr>remaining_time := remaining_time e - dt\<rparr>)
                 (filter (\<lambda>e. 0 < remaining_time e - dt) (active_effects holder))
           \<and> health holder' =
               health (fold (\<lambda>e h. snd (snd (effect_update dt e h)))
                         (active_effects holder) holder)
           \<and> is_alive holder' =
               is_alive (fold (\<lambda>e h. snd (snd (effect_update dt e h)))
                           (active_effects holder) holder)))"
proof (intro conjI impI)
  show "effect_update dt e holder =
     (0 < remaining_time e - dt, e\<lparr>remaining_time := remaining_time e - dt\<rparr>,
      (case effect_class e of
         StatusEffect_class \<Rightarrow> holder
       | AcidEffect_class \<Rightarrow> take_damage (damage_per_second e * dt) holder))"
    by (rule effect_update_eq)
next
  assume "is_alive holder"
  then show "health (take_damage (damage_per_second e * dt) holder)
      = max 0 (health holder - damage_per_second e * dt)"
    by (simp add: take_damage_def Let_def)
next
  assume "is_alive holder
     \<and> get_height_at tr (py_int (ant_x holder + fst (velocity holder))) = Inr gh"
  then show "\<exists>holder'. Ant_update dt tr holder = Inr holder'
           \<and> active_effects holder' =
               map (\<lambda>e. e\<lparr>remaining_time := remaining_time e - dt\<rparr>)
                 (filter (\<lambda>e. 0 < remaining_time e - dt) (active_effects holder))
           \<and> health holder' =
               health (fold (\<lambda>e h. snd (snd (effect_update dt e h)))
                         (active_effects holder) holder)
           \<and> is_alive holder' =
               is_alive (fold (\<lambda>e h. snd (snd (effect_update dt e h)))
                           (active_effects holder) holder)"
    using Ant_update_effects [of holder tr gh dt] by blast
qed

theorem effect_tick_witness:
  "(case Ant_update 0.25 \<lparr>config = default_config, height_map = replicate 400 150\<rparr>
           ((Ant_init 100 400 False)
              \<lparr>active_effects := [(AcidEffect_init 3)\<lparr>remaining_time := 0.1\<rparr>,
                                   AcidEffect_init 3]\<rparr>) of
      Inl err \<Rightarrow> False
    | Inr a \<Rightarrow> active_effects a = [(AcidEffect_init 3)\<lparr>remaining_time := 2.75\<rparr>]
               \<and> health a = 97.5 \<and> is_alive a)
   \<and> health (take_damage (damage_per_second (AcidEffect_init 3) * 0.25)
        ((Ant_init 100 400 False)
              \<lparr>active_effects := [(AcidEffect_init 3)\<lparr>remaining_time := 0.1\<rparr>,
                                   AcidEffect_init 3]\<rparr>)) = 98.75
   \<and> effect_update 0.25 ((AcidEffect_init 3)\<lparr>remaining_time := 0.1\<rparr>) (Ant_init 100 400 False)
       = (False, (AcidEffect_init 3)\<lparr>remaining_time := - 0.15\<rparr>,
          (Ant_init 100 400 False)\<lparr>health := 98.75\<rparr>)"
proof -
  let ?t = "\<lparr>config = default_config, height_map = replicate 400 150\<rparr>"
  let ?a = "(Ant_init 100 400 False)
              \<lparr>active_effects := [(AcidEffect_init 3)\<lparr>remaining_time := 0.1\<rparr>,
                                   AcidEffect_init 3]\<rparr>"
  have alive: "is_alive ?a" by (simp add: Ant_init_def)
  have gh: "get_height_at ?t (py_int (ant_x ?a + fst (velocity ?a))) = Inr 150"
    by (simp add: get_height_at_def py_int_def py_index_def default_config_def Ant_init_def
        Let_def)
  from effect_tick [of "0.25" "AcidEffect_init 3" ?a ?t 150] alive gh
  obtain a' where upd: "Ant_update 0.25 ?t ?a = Inr a'"
    and eff: "active_effects a' =
               map (\<lambda>e. e\<lparr>remaining_time := remaining_time e - 0.25\<rparr>)
                 (filter (\<lambda>e. 0 < remaining_time e - 0.25) (active_effects ?a))"
    and h: "health a' =
               health (fold (\<lambda>e h. snd (snd (effect_update 0.25 e h))) (active_effects ?a) ?a)"
    and al: "is_alive a' =
               is_alive (fold (\<lambda>e h. snd (snd (effect_update 0.25 e h))) (active_effects ?a) ?a)"
    by blast
  have 1: "active_effects a' = [(AcidEffect_init 3)\<lparr>remaining_time := 2.75\<rparr>]"
    using eff by (simp add: AcidEffect_init_def)
  have 2: "health a' = 97.5"
    using h by (simp add: effect_update_eq AcidEffect_init_def Ant_init_def take_damage_def
        Let_def)
  have 3: "is_alive a'"
    using al by (simp add: effect_update_eq AcidEffect_init_def Ant_init_def take_damage_def
        Let_def)
  note c2 = effect_tick [of "0.25" "AcidEffect_init 3" ?a ?t 150, THEN conjunct2, THEN conjunct1]
  from c2 alive
  have "health (take_damage (damage_per_second (AcidEffect_init 3) * 0.25) ?a)
      = max 0 (health ?a - damage_per_second (AcidEffect_init 3) * 0.25)"
    by (rule mp)
  also have "\<dots> = 98.75" by (simp add: AcidEffect_init_def Ant_init_def)
  finally have 4: "health (take_damage (damage_per_second (AcidEffect_init 3) * 0.25) ?a) = 98.75" .
  note c1 = effect_tick [of "0.25" "(AcidEffect_init 3)\<lparr>remaining_time := 0.1\<rparr>"
        "Ant_init 100 400 False" ?t 150, THEN conjunct1]
  have 5: "effect_update 0.25 ((AcidEffect_init 3)\<lparr>remaining_time := 0.1\<rparr>) (Ant_init 100 400 False)
       = (False, (AcidEffect_init 3)\<lparr>remaining_time := - 0.15\<rparr>,
          (Ant_init 100 400 False)\<lparr>health := 98.75\<rparr>)"
    unfolding c1 by (simp add: AcidEffect_init_def Ant_init_def take_damage_def Let_def)
  from upd 1 2 3 have "case Ant_update 0.25 ?t ?a of Inl err \<Rightarrow> False
      | Inr a \<Rightarrow> active_effects a = [(AcidEffect_init 3)\<lparr>remaining_time := 2.75\<rparr>]
               \<and> health a = 97.5 \<and> is_alive a"
    by simp
  with 4 5 show ?thesis by blast
qed

section \<open>The opponent's state machine\<close>







section \<open>Craters\<close>

lemma le_div_int: "0 < (c::int) \<Longrightarrow> a * c \<le> b \<Longrightarrow> a \<le> b div c"
  using zdiv_mono1 by fastforce

lemma impact_start_le:
  fixes R :: int
  assumes R: "0 < R" and d: "\<bar>x - i * R\<bar> < radius"
  shows "x div R - radius div R \<le> i"
proof (rule ccontr)
  assume "\<not> x div R - radius div R \<le> i"
  then have "i + radius div R + 1 \<le> x div R" by simp
  then have "R * (i + radius div R + 1) \<le> R * (x div R)"
    using R by (simp only: mult_left_mono order_less_imp_le)
  then have 1: "R * i + R * (radius div R) + R \<le> R * (x div R)"
    by (simp add: distrib_left)
  have 2: "x = R * (x div R) + x mod R" by simp
  have 3: "radius = R * (radius div R) + radius mod R" by simp
  have 4: "0 \<le> x mod R" using R by simp
  have 5: "radius mod R < R" using R by simp
  have 6: "i * R = R * i" by simp
  from 1 2 3 4 5 have "radius < x - R * i" by linarith
  with d 6 show False by linarith
qed

lemma impact_end_gt:
  fixes R :: int
  assumes R: "0 < R" and d: "\<bar>x - i * R\<bar> < radius"
  shows "i < (x + radius) div R + 1"
proof -
  from d have "i * R \<le> x + radius" by linarith
  with R have "i \<le> (x + radius) div R" by (rule le_div_int)
  then show ?thesis by simp
qed

lemma py_range_set: "set (py_range a b 1) = {a..<b}"
proof (induction a b "1::int" rule: py_range.induct)
  case (1 start stop)
  show ?case
  proof (cases "start < stop")
    case True
    with 1 have "set (py_range (start + 1) stop 1) = {start + 1..<stop}" by simp
    with True show ?thesis by (subst py_range.simps) auto
  next
    case False
    then show ?thesis by (subst py_range.simps) simp
  qed
qed

lemma py_range_distinct: "distinct (py_range a b 1)"
proof (induction a b "1::int" rule: py_range.induct)
  case (1 start stop)
  show ?case
  proof (cases "start < stop")
    case True
    with 1 have "distinct (py_range (start + 1) stop 1)" by simp
    with True show ?thesis by (subst py_range.simps) (simp add: py_range_set)
  next
    case False
    then show ?thesis by (subst py_range.simps) simp
  qed
qed

lemma crater_step_length: "length (crater_step cfg x radius i hm) = length hm"
  by (simp add: crater_step_def Let_def)

lemma fold_crater_length: "length (fold (crater_step cfg x radius) ks hm) = length hm"
  by (induction ks arbitrary: hm) (simp_all add: crater_step_length)

lemma crater_step_nth_same:
  "i < length hm \<Longrightarrow>
   crater_step cfg x radius (int i) hm ! i =
     (if \<bar>x - int i * TERRAIN_RESOLUTION cfg\<bar> < radius
      then max (MIN_GROUND_HEIGHT cfg)
             (hm ! i - py_int (real_of_int (radius - \<bar>x - int i * TERRAIN_RESOLUTION cfg\<bar>) * 0.5))
      else hm ! i)"
  by (simp add: crater_step_def Let_def)

lemma crater_step_nth_other:
  "0 \<le> k \<Longrightarrow> k \<noteq> int i \<Longrightarrow> crater_step cfg x radius k hm ! i = hm ! i"
proof -
  assume "0 \<le> k" "k \<noteq> int i"
  then have "nat k \<noteq> i" by auto
  then show ?thesis by (simp add: crater_step_def Let_def)
qed

lemma fold_crater_nth_notin:
  "\<forall>k \<in> set ks. 0 \<le> k \<Longrightarrow> int i \<notin> set ks \<Longrightarrow>
   fold (crater_step cfg x radius) ks hm ! i = hm ! i"
proof (induction ks arbitrary: hm)
  case Nil
  then show ?case by simp
next
  case (Cons k ks)
  have "fold (crater_step cfg x radius) ks (crater_step cfg x radius k hm) ! i
      = crater_step cfg x radius k hm ! i"
    using Cons.prems by (intro Cons.IH) simp_all
  also have "\<dots> = hm ! i"
    using Cons.prems by (intro crater_step_nth_other) auto
  finally show ?case by simp
qed

lemma fold_crater_nth_in:
  "\<forall>k \<in> set ks. 0 \<le> k \<Longrightarrow> distinct ks \<Longrightarrow> i < length hm \<Longrightarrow> int i \<in> set ks \<Longrightarrow>
   fold (crater_step cfg x radius) ks hm ! i =
     (if \<bar>x - int i * TERRAIN_RESOLUTION cfg\<bar> < radius
      then max (MIN_GROUND_HEIGHT cfg)
             (hm ! i - py_int (real_of_int (radius - \<bar>x - int i * TERRAIN_RESOLUTION cfg\<bar>) * 0.5))
      else hm ! i)"
proof (induction ks arbitrary: hm)
  case Nil
  then show ?case by simp
next
  case (Cons k ks)
  show ?case
  proof (cases "k = int i")
    case True
    then have notin: "int i \<notin> set ks" using Cons.prems by simp
    have pos: "\<forall>k \<in> set ks. 0 \<le> k" using Cons.prems by simp
    have "fold (crater_step cfg x radius) (k # ks) hm ! i
        = fold (crater_step cfg x radius) ks (crater_step cfg x radius (int i) hm) ! i"
      using True by simp
    also have "\<dots> = crater_step cfg x radius (int i) hm ! i"
      using pos notin by (rule fold_crater_nth_notin)
    finally show ?thesis
      using Cons.prems(3) by (simp only: crater_step_nth_same)
  next
    case False
    have same: "crater_step cfg x radius k hm ! i = hm ! i"
      using Cons.prems False by (intro crater_step_nth_other) auto
    have "fold (crater_step cfg x radius) (k # ks) hm ! i
        = fold (crater_step cfg x radius) ks (crater_step cfg x radius k hm) ! i"
      by simp
    also have "\<dots> =
     (if \<bar>x - int i * TERRAIN_RESOLUTION cfg\<bar> < radius
      then max (MIN_GROUND_HEIGHT cfg)
             (crater_step cfg x radius k hm ! i
                - py_int (real_of_int (radius - \<bar>x - int i * TERRAIN_RESOLUTION cfg\<bar>) * 0.5))
      else crater_step cfg x radius k hm ! i)"
      using Cons.prems False by (intro Cons.IH) (simp_all add: crater_step_length)
    finally show ?thesis by (simp only: same)
  qed
qed


lemma py_int_nonneg: "0 \<le> v \<Longrightarrow> py_int v = \<lfloor>v\<rfloor>"
  by (simp add: py_int_def)

lemma impact_range_in_bounds:
  "\<forall>k \<in> set (py_range (impact_start cfg x radius) (impact_end cfg hm x radius) 1).
     0 \<le> k \<and> k < int (length hm)"
  by (auto simp add: py_range_set impact_start_def impact_end_def)

lemma apply_destruction_nth:
  assumes R: "0 < TERRAIN_RESOLUTION (config t)" and i: "i < length (height_map t)"
  shows "\<exists>t'. apply_destruction t x y radius = Inr t' \<and> config t' = config t
     \<and> length (height_map t') = length (height_map t)
     \<and> height_map t' ! i =
         (if \<bar>x - int i * TERRAIN_RESOLUTION (config t)\<bar> < radius
          then max (MIN_GROUND_HEIGHT (config t))
                 (height_map t ! i
                    - \<lfloor>real_of_int (radius - \<bar>x - int i * TERRAIN_RESOLUTION (config t)\<bar>) * 0.5\<rfloor>)
          else height_map t ! i)"
proof -
  let ?cfg = "config t" and ?hm = "height_map t"
  let ?ks = "py_range (impact_start ?cfg x radius) (impact_end ?cfg ?hm x radius) 1"
  let ?d = "\<bar>x - int i * TERRAIN_RESOLUTION ?cfg\<bar>"
  let ?t' = "t\<lparr>height_map := fold (crater_step ?cfg x radius) ?ks ?hm\<rparr>"
  have app: "apply_destruction t x y radius = Inr ?t'"
    using R by (simp add: apply_destruction_def)
  have pos: "\<forall>k \<in> set ?ks. 0 \<le> k" using impact_range_in_bounds [of ?cfg x radius ?hm] by blast
  have dist: "distinct ?ks" by (rule py_range_distinct)
  have val: "fold (crater_step ?cfg x radius) ?ks ?hm ! i =
         (if ?d < radius
          then max (MIN_GROUND_HEIGHT ?cfg) (?hm ! i - \<lfloor>real_of_int (radius - ?d) * 0.5\<rfloor>)
          else ?hm ! i)"
  proof (cases "int i \<in> set ?ks")
    case True
    have fl: "py_int (real_of_int (radius - ?d) * 0.5) = \<lfloor>real_of_int (radius - ?d) * 0.5\<rfloor>"
      if "?d < radius"
    proof -
      from that have "0 \<le> radius - ?d" by simp
      then have "0 \<le> real_of_int (radius - ?d)" by (simp only: of_int_0_le_iff)
      then have "0 \<le> real_of_int (radius - ?d) * 0.5" by (intro mult_nonneg_nonneg) simp_all
      then show ?thesis by (rule py_int_nonneg)
    qed
    from fold_crater_nth_in [OF pos dist i True] fl show ?thesis by presburger
  next
    case False
    have "\<not> ?d < radius"
    proof
      assume d: "?d < radius"
      from impact_start_le [OF R d] have "impact_start ?cfg x radius \<le> int i"
        by (simp add: impact_start_def)
      moreover from impact_end_gt [OF R d] i have "int i < impact_end ?cfg ?hm x radius"
        by (simp add: impact_end_def)
      ultimately have "int i \<in> set ?ks" by (simp add: py_range_set)
      with False show False by simp
    qed
    with fold_crater_nth_notin [OF pos False] show ?thesis by simp
  qed
  have "config ?t' = config t" and "length (height_map ?t') = length ?hm"
    by (simp_all add: fold_crater_length)
  with app val show ?thesis by (intro exI [of _ ?t']) simp
qed


lemma apply_destruction_Inr:
  "0 < TERRAIN_RESOLUTION (config t) \<Longrightarrow>
   \<exists>t'. apply_destruction t x y radius = Inr t' \<and> config t' = config t
      \<and> length (height_map t') = length (height_map t)"
  by (simp add: apply_destruction_def fold_crater_length)

lemma crater_sample_bounds:
  assumes R: "0 < TERRAIN_RESOLUTION (config t)" and i: "i < length (height_map t)"
    and app: "apply_destruction t x y radius = Inr t'"
  shows "height_map t' ! i \<le> max (MIN_GROUND_HEIGHT (config t)) (height_map t ! i)"
    and "min (MIN_GROUND_HEIGHT (config t)) (height_map t ! i) \<le> height_map t' ! i"
proof -
  let ?d = "\<bar>x - int i * TERRAIN_RESOLUTION (config t)\<bar>"
  let ?red = "\<lfloor>real_of_int (radius - ?d) * 0.5\<rfloor>"
  from apply_destruction_nth [OF R i, of x y radius] app
  have val: "height_map t' ! i =
         (if ?d < radius
          then max (MIN_GROUND_HEIGHT (config t)) (height_map t ! i - ?red)
          else height_map t ! i)"
    by simp
  have red: "0 \<le> ?red" if "?d < radius"
  proof -
    from that have "0 \<le> radius - ?d" by simp
    then have "0 \<le> real_of_int (radius - ?d)" by (simp only: of_int_0_le_iff)
    then have "0 \<le> real_of_int (radius - ?d) * 0.5" by (intro mult_nonneg_nonneg) simp_all
    then show ?thesis by (simp only: zero_le_floor)
  qed
  show "height_map t' ! i \<le> max (MIN_GROUND_HEIGHT (config t)) (height_map t ! i)"
  proof (cases "?d < radius")
    case True
    then have "0 \<le> ?red" by (rule red)
    moreover from val True
    have "height_map t' ! i = max (MIN_GROUND_HEIGHT (config t)) (height_map t ! i - ?red)"
      by (simp only: if_True)
    ultimately show ?thesis by linarith
  next
    case False
    with val show ?thesis by simp
  qed
  show "min (MIN_GROUND_HEIGHT (config t)) (height_map t ! i) \<le> height_map t' ! i"
  proof (cases "?d < radius")
    case True
    with val show ?thesis by simp
  next
    case False
    with val show ?thesis by simp
  qed
qed

lemma ball_set_conv_nth:
  "(\<forall>h \<in> set hm. P h) \<longleftrightarrow> (\<forall>i < length hm. P (hm ! i))"
  by (metis in_set_conv_nth)

lemma craters_invariant:
  assumes "craters t t'" and "0 < TERRAIN_RESOLUTION (config t)"
    and "\<forall>h \<in> set (height_map t). MIN_GROUND_HEIGHT (config t) \<le> h"
  shows "config t' = config t \<and> length (height_map t') = length (height_map t)
     \<and> (\<forall>i < length (height_map t).
           MIN_GROUND_HEIGHT (config t) \<le> height_map t' ! i
           \<and> height_map t' ! i \<le> height_map t ! i)"
  using assms
proof (induction rule: craters.induct)
  case (no_crater t0)
  then show ?case by simp
next
  case (one_more t0 t1 x y radius t2)
  from one_more.IH [OF one_more.prems]
  have cfg1: "config t1 = config t0" and len1: "length (height_map t1) = length (height_map t0)"
    and b1: "\<forall>i < length (height_map t0).
           MIN_GROUND_HEIGHT (config t0) \<le> height_map t1 ! i
           \<and> height_map t1 ! i \<le> height_map t0 ! i"
    by simp_all
  have R1: "0 < TERRAIN_RESOLUTION (config t1)" using one_more.prems cfg1 by simp
  from apply_destruction_Inr [OF R1, of x y radius] one_more.hyps
  have cfg2: "config t2 = config t1" and len2: "length (height_map t2) = length (height_map t1)"
    by simp_all
  have "MIN_GROUND_HEIGHT (config t0) \<le> height_map t2 ! i
      \<and> height_map t2 ! i \<le> height_map t0 ! i" if i: "i < length (height_map t0)" for i
  proof -
    from i len1 have i1: "i < length (height_map t1)" by simp
    from b1 i have lo1: "MIN_GROUND_HEIGHT (config t0) \<le> height_map t1 ! i"
      and hi1: "height_map t1 ! i \<le> height_map t0 ! i" by simp_all
    from crater_sample_bounds [OF R1 i1 one_more.hyps(2)] cfg1
    have "height_map t2 ! i \<le> max (MIN_GROUND_HEIGHT (config t0)) (height_map t1 ! i)"
      and "min (MIN_GROUND_HEIGHT (config t0)) (height_map t1 ! i) \<le> height_map t2 ! i"
      by simp_all
    with lo1 hi1 show ?thesis by linarith
  qed
  with cfg1 cfg2 len1 len2 show ?case by simp
qed

text \<open>
  Claim C7. With a positive resolution, \<open>apply_destruction\<close> returns a terrain of the same
  configuration and length in which every sample whose world x (index times resolution)
  is closer than \<open>radius\<close> to \<open>x\<close> is \<open>max MIN_GROUND_HEIGHT (h - floor ((radius - dist) * 0.5))\<close>
  and every other sample is unchanged. On a terrain whose samples are at least
  \<open>MIN_GROUND_HEIGHT\<close> (every terrain of the game is), no sequence of craters raises a
  sample.
\<close>

theorem crater_effect:
  "0 < TERRAIN_RESOLUTION (config t) \<Longrightarrow>
   (\<exists>t'. apply_destruction t x y radius = Inr t' \<and> config t' = config t
      \<and> length (height_map t') = length (height_map t)
      \<and> (\<forall>i < length (height_map t).
            height_map t' ! i =
              (if \<bar>x - int i * TERRAIN_RESOLUTION (config t)\<bar> < radius
               then max (MIN_GROUND_HEIGHT (config t))
                      (height_map t ! i
                         - \<lfloor>real_of_int (radius - \<bar>x - int i * TERRAIN_RESOLUTION (config t)\<bar>)
                              * 0.5\<rfloor>)
               else height_map t ! i)))
   \<and> (craters t t'' \<and> (\<forall>h \<in> set (height_map t). MIN_GROUND_HEIGHT (config t) \<le> h) \<longrightarrow>
        length (height_map t'') = length (height_map t)
        \<and> (\<forall>i < length (height_map t). height_map t'' ! i \<le> height_map t ! i))"
proof (intro conjI impI)
  assume R: "0 < TERRAIN_RESOLUTION (config t)"
  from apply_destruction_Inr [OF R, of x y radius]
  obtain t' where app: "apply_destruction t x y radius = Inr t'"
    and cfg: "config t' = config t"
    and len: "length (height_map t') = length (height_map t)"
    by blast
  have "height_map t' ! i =
              (if \<bar>x - int i * TERRAIN_RESOLUTION (config t)\<bar> < radius
               then max (MIN_GROUND_HEIGHT (config t))
                      (height_map t ! i
                         - \<lfloor>real_of_int (radius - \<bar>x - int i * TERRAIN_RESOLUTION (config t)\<bar>)
                              * 0.5\<rfloor>)
               else height_map t ! i)" if "i < length (height_map t)" for i
    using apply_destruction_nth [OF R that, of x y radius] app by simp
  with app cfg len
  show "\<exists>t'. apply_destruction t x y radius = Inr t' \<and> config t' = config t
      \<and> length (height_map t') = length (height_map t)
      \<and> (\<forall>i < length (height_map t).
            height_map t' ! i =
              (if \<bar>x - int i * TERRAIN_RESOLUTION (config t)\<bar> < radius
               then max (MIN_GROUND_HEIGHT (config t))
                      (height_map t ! i
                         - \<lfloor>real_of_int (radius - \<bar>x - int i * TERRAIN_RESOLUTION (config t)\<bar>)
                              * 0.5\<rfloor>)
               else height_map t ! i))"
    by blast
next
  assume R: "0 < TERRAIN_RESOLUTION (config t)"
    and h: "craters t t'' \<and> (\<forall>h \<in> set (height_map t). MIN_GROUND_HEIGHT (config t) \<le> h)"
  from h have c: "craters t t''"
    and lo: "\<forall>h \<in> set (height_map t). MIN_GROUND_HEIGHT (config t) \<le> h" by simp_all
  from craters_invariant [OF c R lo]
  show "length (height_map t'') = length (height_map t)" by simp
  from craters_invariant [OF c R lo]
  show "\<forall>i < length (height_map t). height_map t'' ! i \<le> height_map t ! i" by simp
qed

theorem crater_effect_witness:
  "(case apply_destruction \<lparr>config = default_config, height_map = replicate 400 150\<rparr> 100 450 20 of
      Inl err \<Rightarrow> False
    | Inr t' \<Rightarrow> height_map t' ! 50 = 140 \<and> height_map t' ! 45 = 145
                \<and> height_map t' ! 40 = 150 \<and> height_map t' ! 300 = 150
                \<and> length (height_map t') = 400)
   \<and> (case apply_destruction \<lparr>config = default_config, height_map = replicate 400 104\<rparr> 100 450 20 of
      Inl err \<Rightarrow> False
    | Inr t' \<Rightarrow> height_map t' ! 50 = 100 \<and> height_map t' ! 45 = 100)
   \<and> (case apply_destruction \<lparr>config = default_config, height_map = replicate 400 150\<rparr> 100 450 20 of
      Inl err \<Rightarrow> False
    | Inr t' \<Rightarrow>
        (case apply_destruction t' 104 450 20 of
           Inl err \<Rightarrow> False
         | Inr t'' \<Rightarrow>
             craters \<lparr>config = default_config, height_map = replicate 400 150\<rparr> t''
             \<and> length (height_map t'') = 400 \<and> height_map t'' ! 50 \<le> 150))"
proof -
  let ?t = "\<lparr>config = default_config, height_map = replicate 400 150\<rparr>"
  let ?u = "\<lparr>config = default_config, height_map = replicate 400 104\<rparr>"
  have R: "0 < TERRAIN_RESOLUTION (config ?t)" and Ru: "0 < TERRAIN_RESOLUTION (config ?u)"
    by (simp_all add: default_config_def)
  from crater_effect [OF R, of 100 450 20 ?t]
  obtain t' where app: "apply_destruction ?t 100 450 20 = Inr t'"
    and cfg: "config t' = config ?t"
    and len: "length (height_map t') = length (height_map ?t)"
    and val: "\<forall>i < length (height_map ?t).
            height_map t' ! i =
              (if \<bar>100 - int i * TERRAIN_RESOLUTION (config ?t)\<bar> < 20
               then max (MIN_GROUND_HEIGHT (config ?t))
                      (height_map ?t ! i
                         - \<lfloor>real_of_int (20 - \<bar>100 - int i * TERRAIN_RESOLUTION (config ?t)\<bar>)
                              * 0.5\<rfloor>)
               else height_map ?t ! i)"
    by blast
  from val [rule_format, of 50] have "height_map t' ! 50 = 140" by (simp add: default_config_def)
  moreover from val [rule_format, of 45] have "height_map t' ! 45 = 145" by (simp add: default_config_def)
  moreover from val [rule_format, of 40] have "height_map t' ! 40 = 150" by (simp add: default_config_def)
  moreover from val [rule_format, of 300] have "height_map t' ! 300 = 150" by (simp add: default_config_def)
  moreover from len have "length (height_map t') = 400" by simp
  ultimately have 1: "(case apply_destruction ?t 100 450 20 of
      Inl err \<Rightarrow> False
    | Inr t' \<Rightarrow> height_map t' ! 50 = 140 \<and> height_map t' ! 45 = 145
                \<and> height_map t' ! 40 = 150 \<and> height_map t' ! 300 = 150
                \<and> length (height_map t') = 400)"
    using app by simp
  from crater_effect [OF Ru, of 100 450 20 ?u]
  obtain u' where appu: "apply_destruction ?u 100 450 20 = Inr u'"
    and valu: "\<forall>i < length (height_map ?u).
            height_map u' ! i =
              (if \<bar>100 - int i * TERRAIN_RESOLUTION (config ?u)\<bar> < 20
               then max (MIN_GROUND_HEIGHT (config ?u))
                      (height_map ?u ! i
                         - \<lfloor>real_of_int (20 - \<bar>100 - int i * TERRAIN_RESOLUTION (config ?u)\<bar>)
                              * 0.5\<rfloor>)
               else height_map ?u ! i)"
    by blast
  from valu [rule_format, of 50] have "height_map u' ! 50 = 100" by (simp add: default_config_def)
  moreover from valu [rule_format, of 45] have "height_map u' ! 45 = 100" by (simp add: default_config_def)
  ultimately have 2: "(case apply_destruction ?u 100 450 20 of
      Inl err \<Rightarrow> False
    | Inr t' \<Rightarrow> height_map t' ! 50 = 100 \<and> height_map t' ! 45 = 100)"
    using appu by simp
  have R': "0 < TERRAIN_RESOLUTION (config t')" using R cfg by simp
  from crater_effect [OF R', of 104 450 20 t']
  obtain t'' where app2: "apply_destruction t' 104 450 20 = Inr t''" by blast
  have cr: "craters ?t t''"
    by (rule craters.one_more [OF craters.one_more [OF craters.no_crater app] app2])
  have lo: "\<forall>h \<in> set (height_map ?t). MIN_GROUND_HEIGHT (config ?t) \<le> h"
    by (simp add: default_config_def)
  from crater_effect [OF R, of 100 450 20 t''] cr lo
  have len2: "length (height_map t'') = length (height_map ?t)"
    and le2: "\<forall>i < length (height_map ?t). height_map t'' ! i \<le> height_map ?t ! i"
    by blast+
  from le2 [rule_format, of 50] have "height_map t'' ! 50 \<le> 150" by simp
  with cr len2 app app2
  have 3: "(case apply_destruction ?t 100 450 20 of
      Inl err \<Rightarrow> False
    | Inr t' \<Rightarrow>
        (case apply_destruction t' 104 450 20 of
           Inl err \<Rightarrow> False
         | Inr t'' \<Rightarrow>
             craters ?t t'' \<and> length (height_map t'') = 400 \<and> height_map t'' ! 50 \<le> 150))"
    by simp
  from 1 2 3 show ?thesis by blast
qed

section \<open>Terrain bounds\<close>

lemma py_range_length:
  "0 < step \<Longrightarrow>
   length (py_range start stop step) = nat \<lceil>real_of_int (stop - start) / real_of_int step\<rceil>"
proof (induction start stop step rule: py_range.induct)
  case (1 start stop step)
  show ?case
  proof (cases "start < stop")
    case True
    with 1 have IH: "length (py_range (start + step) stop step)
        = nat \<lceil>real_of_int (stop - (start + step)) / real_of_int step\<rceil>"
      by simp
    have "real_of_int (stop - (start + step)) / real_of_int step
        = real_of_int (stop - start) / real_of_int step - 1"
      using "1.prems" by (simp add: field_simps)
    then have c: "\<lceil>real_of_int (stop - (start + step)) / real_of_int step\<rceil>
        = \<lceil>real_of_int (stop - start) / real_of_int step\<rceil> - 1"
      by (simp only: ceiling_diff_one)
    have "0 < real_of_int (stop - start) / real_of_int step"
      using True "1.prems" by simp
    then have "0 < \<lceil>real_of_int (stop - start) / real_of_int step\<rceil>"
      by (simp only: ceiling_less_iff [symmetric] zero_less_ceiling)
    with c IH have "Suc (length (py_range (start + step) stop step))
        = nat \<lceil>real_of_int (stop - start) / real_of_int step\<rceil>"
      by linarith
    with True "1.prems" show ?thesis by (subst py_range.simps) simp
  next
    case False
    then have "real_of_int (stop - start) / real_of_int step \<le> 0"
      using "1.prems" by (simp add: divide_le_0_iff)
    then have "\<lceil>real_of_int (stop - start) / real_of_int step\<rceil> \<le> 0"
      by (simp only: ceiling_le_zero)
    with False "1.prems" show ?thesis by (subst py_range.simps) simp
  qed
qed

lemma terrain_sample_bounds:
  assumes "MIN_GROUND_HEIGHT cfg \<le> MAX_GROUND_HEIGHT cfg"
  shows "MIN_GROUND_HEIGHT cfg \<le> terrain_sample cfg phase x
     \<and> terrain_sample cfg phase x \<le> MAX_GROUND_HEIGHT cfg"
proof -
  define v where "v = min (max (real_of_int (MIN_GROUND_HEIGHT cfg)
          + sin (real_of_int x * 0.02 + phase) * 30
          + sin (real_of_int x * 0.05 + phase * 2) * 15
          + sin (real_of_int x * 0.01 + phase * 0.5) * 45)
        (real_of_int (MIN_GROUND_HEIGHT cfg))) (real_of_int (MAX_GROUND_HEIGHT cfg))"
  have ts: "terrain_sample cfg phase x = py_int v"
    by (simp add: terrain_sample_def Let_def v_def)
  have lo: "real_of_int (MIN_GROUND_HEIGHT cfg) \<le> v"
    using assms by (simp add: v_def)
  have hi: "v \<le> real_of_int (MAX_GROUND_HEIGHT cfg)"
    by (simp add: v_def)
  from lo hi have "MIN_GROUND_HEIGHT cfg \<le> py_int v \<and> py_int v \<le> MAX_GROUND_HEIGHT cfg"
    unfolding py_int_def
    by (simp add: le_floor_iff ceiling_le_iff floor_le_iff le_ceiling_iff)
  with ts show ?thesis by simp
qed

lemma Terrain_init_Inr:
  "0 < TERRAIN_RESOLUTION cfg \<Longrightarrow>
   Terrain_init cfg phase =
     Inr \<lparr>config = cfg,
          height_map = map (terrain_sample cfg phase)
                         (py_range 0 (SCREEN_WIDTH cfg) (TERRAIN_RESOLUTION cfg))\<rparr>"
  by (simp add: Terrain_init_def generate_terrain_def)

lemma reachable_terrain_invariant:
  assumes "reachable_terrain cfg t" and R: "0 < TERRAIN_RESOLUTION cfg"
    and mm: "MIN_GROUND_HEIGHT cfg \<le> MAX_GROUND_HEIGHT cfg"
  shows "config t = cfg
     \<and> (\<forall>i < length (height_map t).
           MIN_GROUND_HEIGHT cfg \<le> height_map t ! i \<and> height_map t ! i \<le> MAX_GROUND_HEIGHT cfg)
     \<and> length (height_map t)
         = nat \<lceil>real_of_int (SCREEN_WIDTH cfg) / real_of_int (TERRAIN_RESOLUTION cfg)\<rceil>"
  using assms
proof (induction rule: reachable_terrain.induct)
  case (generated cfg phase t)
  from Terrain_init_Inr [OF generated.prems(1), of phase] generated.hyps
  have t: "t = \<lparr>config = cfg,
          height_map = map (terrain_sample cfg phase)
                         (py_range 0 (SCREEN_WIDTH cfg) (TERRAIN_RESOLUTION cfg))\<rparr>"
    by simp
  have len: "length (height_map t)
         = nat \<lceil>real_of_int (SCREEN_WIDTH cfg) / real_of_int (TERRAIN_RESOLUTION cfg)\<rceil>"
    using py_range_length [OF generated.prems(1), of 0 "SCREEN_WIDTH cfg"] by (simp add: t)
  have "MIN_GROUND_HEIGHT cfg \<le> height_map t ! i \<and> height_map t ! i \<le> MAX_GROUND_HEIGHT cfg"
    if "i < length (height_map t)" for i
    using that terrain_sample_bounds [OF generated.prems(2), of phase] by (simp add: t)
  with len t show ?case by simp
next
  case (cratered cfg t x y radius t')
  from cratered.IH [OF cratered.prems]
  have cfg: "config t = cfg"
    and b: "\<forall>i < length (height_map t).
           MIN_GROUND_HEIGHT cfg \<le> height_map t ! i \<and> height_map t ! i \<le> MAX_GROUND_HEIGHT cfg"
    and len: "length (height_map t)
         = nat \<lceil>real_of_int (SCREEN_WIDTH cfg) / real_of_int (TERRAIN_RESOLUTION cfg)\<rceil>"
    by simp_all
  have R: "0 < TERRAIN_RESOLUTION (config t)" using cratered.prems cfg by simp
  from apply_destruction_Inr [OF R, of x y radius] cratered.hyps
  have cfg': "config t' = config t" and len': "length (height_map t') = length (height_map t)"
    by simp_all
  have "MIN_GROUND_HEIGHT cfg \<le> height_map t' ! i \<and> height_map t' ! i \<le> MAX_GROUND_HEIGHT cfg"
    if i: "i < length (height_map t)" for i
  proof -
    from b i have lo: "MIN_GROUND_HEIGHT cfg \<le> height_map t ! i"
      and hi: "height_map t ! i \<le> MAX_GROUND_HEIGHT cfg" by simp_all
    from crater_sample_bounds [OF R i cratered.hyps(2)] cfg
    have "height_map t' ! i \<le> max (MIN_GROUND_HEIGHT cfg) (height_map t ! i)"
      and "min (MIN_GROUND_HEIGHT cfg) (height_map t ! i) \<le> height_map t' ! i"
      by simp_all
    with lo hi show ?thesis by linarith
  qed
  with cfg cfg' len len' show ?case by simp
qed

text \<open>
  Claim C8. For a positive resolution and \<open>MIN_GROUND_HEIGHT \<le> MAX_GROUND_HEIGHT\<close>, the
  terrain is generated for every phase, and every terrain reached from a generated one by
  craters has all its samples in \<open>[MIN_GROUND_HEIGHT, MAX_GROUND_HEIGHT]\<close> and
  \<open>ceil (SCREEN_WIDTH / TERRAIN_RESOLUTION)\<close> samples; a crater on it succeeds and gives a
  reachable terrain again.
\<close>

theorem terrain_bounds:
  "0 < TERRAIN_RESOLUTION cfg \<Longrightarrow> MIN_GROUND_HEIGHT cfg \<le> MAX_GROUND_HEIGHT cfg \<Longrightarrow>
   (\<exists>t0. Terrain_init cfg phase = Inr t0 \<and> reachable_terrain cfg t0)
   \<and> (reachable_terrain cfg t \<longrightarrow>
        config t = cfg
        \<and> (\<forall>h \<in> set (height_map t). MIN_GROUND_HEIGHT cfg \<le> h \<and> h \<le> MAX_GROUND_HEIGHT cfg)
        \<and> length (height_map t)
            = nat \<lceil>real_of_int (SCREEN_WIDTH cfg) / real_of_int (TERRAIN_RESOLUTION cfg)\<rceil>
        \<and> (\<exists>t'. apply_destruction t x y radius = Inr t' \<and> reachable_terrain cfg t'))"
proof (intro conjI impI)
  assume R: "0 < TERRAIN_RESOLUTION cfg"
    and mm: "MIN_GROUND_HEIGHT cfg \<le> MAX_GROUND_HEIGHT cfg"
  from Terrain_init_Inr [OF R, of phase]
  show "\<exists>t0. Terrain_init cfg phase = Inr t0 \<and> reachable_terrain cfg t0"
    by (blast intro: reachable_terrain.generated)
  assume r: "reachable_terrain cfg t"
  note inv = reachable_terrain_invariant [OF r R mm]
  from inv show cfg: "config t = cfg" by simp
  from inv show "\<forall>h \<in> set (height_map t). MIN_GROUND_HEIGHT cfg \<le> h \<and> h \<le> MAX_GROUND_HEIGHT cfg"
    by (simp only: ball_set_conv_nth) simp
  from inv show "length (height_map t)
            = nat \<lceil>real_of_int (SCREEN_WIDTH cfg) / real_of_int (TERRAIN_RESOLUTION cfg)\<rceil>"
    by simp
  from R cfg have "0 < TERRAIN_RESOLUTION (config t)" by simp
  from apply_destruction_Inr [OF this, of x y radius] r
  show "\<exists>t'. apply_destruction t x y radius = Inr t' \<and> reachable_terrain cfg t'"
    by (blast intro: reachable_terrain.cratered)
qed

theorem terrain_bounds_witness:
  "(case Terrain_init default_config 0 of
      Inl err \<Rightarrow> False
    | Inr t0 \<Rightarrow>
        length (height_map t0) = 400
        \<and> 100 \<le> height_map t0 ! 7 \<and> height_map t0 ! 7 \<le> 200
        \<and> (case apply_destruction t0 14 450 20 of
             Inl err \<Rightarrow> False
           | Inr t1 \<Rightarrow>
               length (height_map t1) = 400
               \<and> 100 \<le> height_map t1 ! 7 \<and> height_map t1 ! 7 \<le> 200))"
proof -
  have R: "0 < TERRAIN_RESOLUTION default_config"
    and mm: "MIN_GROUND_HEIGHT default_config \<le> MAX_GROUND_HEIGHT default_config"
    by (simp_all add: default_config_def)
  have n: "nat \<lceil>real_of_int (SCREEN_WIDTH default_config)
             / real_of_int (TERRAIN_RESOLUTION default_config)\<rceil> = 400"
    by (simp add: default_config_def)
  from terrain_bounds [OF R mm, of 0]
  obtain t0 where init: "Terrain_init default_config 0 = Inr t0"
    and r0: "reachable_terrain default_config t0"
    by blast
  from terrain_bounds [OF R mm, of 0 t0 14 450 20] r0 n
  obtain t1 where len0: "length (height_map t0) = 400"
    and b0: "\<forall>h \<in> set (height_map t0).
        MIN_GROUND_HEIGHT default_config \<le> h \<and> h \<le> MAX_GROUND_HEIGHT default_config"
    and app: "apply_destruction t0 14 450 20 = Inr t1"
    and r1: "reachable_terrain default_config t1"
    by auto
  from terrain_bounds [OF R mm, of 0 t1 14 450 20] r1 n
  have len1: "length (height_map t1) = 400"
    and b1: "\<forall>h \<in> set (height_map t1).
        MIN_GROUND_HEIGHT default_config \<le> h \<and> h \<le> MAX_GROUND_HEIGHT default_config"
    by auto
  have "height_map t0 ! 7 \<in> set (height_map t0)" using len0 by simp
  with b0 have s0: "100 \<le> height_map t0 ! 7 \<and> height_map t0 ! 7 \<le> 200"
    by (auto simp add: default_config_def)
  have "height_map t1 ! 7 \<in> set (height_map t1)" using len1 by simp
  with b1 have s1: "100 \<le> height_map t1 ! 7 \<and> height_map t1 ! 7 \<le> 200"
    by (auto simp add: default_config_def)
  from init app len0 len1 s0 s1 show ?thesis by simp
qed

section \<open>The collision probe\<close>

lemma get_height_at_eq:
  assumes R: "0 < TERRAIN_RESOLUTION (config t)" and ne: "height_map t \<noteq> []"
  shows "get_height_at t x =
     Inr (if x < 0 \<or> SCREEN_WIDTH (config t) \<le> x then MIN_GROUND_HEIGHT (config t)
          else height_map t ! nat (min (int (length (height_map t)) - 1)
                                       (x div TERRAIN_RESOLUTION (config t))))"
proof (cases "x < 0 \<or> SCREEN_WIDTH (config t) \<le> x")
  case True
  then show ?thesis by (auto simp add: get_height_at_def)
next
  case False
  then have "0 \<le> x" by simp
  with R have q: "0 \<le> x div TERRAIN_RESOLUTION (config t)"
    by (simp add: pos_imp_zdiv_nonneg_iff)
  from ne have l: "0 < int (length (height_map t))" by simp
  define k where "k = min (int (length (height_map t)) - 1) (x div TERRAIN_RESOLUTION (config t))"
  from q l have "0 \<le> k \<and> k < int (length (height_map t))" by (simp add: k_def)
  then have "py_index (height_map t) k = Inr (height_map t ! nat k)"
    by (simp add: py_index_def)
  with False R show ?thesis
    by (simp add: get_height_at_def Let_def k_def)
qed

lemma check_collision_eq:
  assumes R: "0 < TERRAIN_RESOLUTION (config t)" and ne: "height_map t \<noteq> []"
  shows "check_collision t x y =
     Inr (0 \<le> x \<and> x < SCREEN_WIDTH (config t) \<and> 0 \<le> y \<and> y < SCREEN_HEIGHT (config t)
          \<and> SCREEN_HEIGHT (config t)
               - height_map t ! nat (min (int (length (height_map t)) - 1)
                                         (x div TERRAIN_RESOLUTION (config t))) \<le> y)"
  by (auto simp add: check_collision_def get_height_at_eq [OF R ne] Let_def)

text \<open>
  The probe is false outside the screen even where \<open>y\<close> is below the ground line that
  \<open>get_height_at\<close> gives: to the right of the screen (x = 900, ground line 500, y = 550)
  and below it (x = 100, ground line 450, y = 700).
\<close>

theorem collision_probe_counterexample:
  "get_height_at \<lparr>config = default_config, height_map = replicate 400 150\<rparr> 900 = Inr 100
   \<and> SCREEN_HEIGHT default_config - 100 \<le> 550
   \<and> check_collision \<lparr>config = default_config, height_map = replicate 400 150\<rparr> 900 550
       = Inr False
   \<and> get_height_at \<lparr>config = default_config, height_map = replicate 400 150\<rparr> 100 = Inr 150
   \<and> SCREEN_HEIGHT default_config - 150 \<le> 700
   \<and> check_collision \<lparr>config = default_config, height_map = replicate 400 150\<rparr> 100 700
       = Inr False"
  by (simp add: check_collision_def get_height_at_def py_index_def default_config_def Let_def)

text \<open>
  Claim C9, as the code has it. \<open>get_height_at\<close> is \<open>MIN_GROUND_HEIGHT\<close> outside
  \<open>[0, SCREEN_WIDTH)\<close> and the sample at index \<open>min (len - 1) (x div resolution)\<close> inside.
  \<open>check_collision\<close> is true exactly when the point is inside the screen,
  \<open>0 \<le> x < SCREEN_WIDTH\<close> and \<open>0 \<le> y < SCREEN_HEIGHT\<close>, and
  \<open>y \<ge> SCREEN_HEIGHT - get_height_at x\<close>; outside the screen it is false. Both are
  functions of the terrain and the point only.
\<close>

theorem collision_probe:
  "0 < TERRAIN_RESOLUTION (config t) \<Longrightarrow> height_map t \<noteq> [] \<Longrightarrow>
   get_height_at t x =
     Inr (if x < 0 \<or> SCREEN_WIDTH (config t) \<le> x then MIN_GROUND_HEIGHT (config t)
          else height_map t ! nat (min (int (length (height_map t)) - 1)
                                       (x div TERRAIN_RESOLUTION (config t))))
   \<and> check_collision t x y =
     Inr (0 \<le> x \<and> x < SCREEN_WIDTH (config t) \<and> 0 \<le> y \<and> y < SCREEN_HEIGHT (config t)
          \<and> SCREEN_HEIGHT (config t)
               - height_map t ! nat (min (int (length (height_map t)) - 1)
                                         (x div TERRAIN_RESOLUTION (config t))) \<le> y)"
  using get_height_at_eq [of t x] check_collision_eq [of t x y] by blast

theorem collision_probe_witness:
  "get_height_at \<lparr>config = default_config, height_map = replicate 399 150 @ [120]\<rparr> 799 = Inr 120
   \<and> get_height_at \<lparr>config = default_config, height_map = replicate 399 150 @ [120]\<rparr> (- 3) = Inr 100
   \<and> check_collision \<lparr>config = default_config, height_map = replicate 399 150 @ [120]\<rparr> 100 450
       = Inr True
   \<and> check_collision \<lparr>config = default_config, height_map = replicate 399 150 @ [120]\<rparr> 100 449
       = Inr False
   \<and> check_collision \<lparr>config = default_config, height_map = replicate 399 150 @ [120]\<rparr> 100 600
       = Inr False"
proof -
  let ?t = "\<lparr>config = default_config, height_map = replicate 399 150 @ [120]\<rparr>"
  have R: "0 < TERRAIN_RESOLUTION (config ?t)" by (simp add: default_config_def)
  have ne: "height_map ?t \<noteq> []" by simp
  have a: "get_height_at ?t 799 = Inr 120"
    using collision_probe [OF R ne, of 799 0] by (simp add: default_config_def nth_append)
  have b: "get_height_at ?t (- 3) = Inr 100"
    using collision_probe [OF R ne, of "- 3" 0] by (simp add: default_config_def)
  have c: "check_collision ?t 100 450 = Inr True"
    using collision_probe [OF R ne, of 100 450] by (simp add: default_config_def nth_append)
  have d: "check_collision ?t 100 449 = Inr False"
    using collision_probe [OF R ne, of 100 449] by (simp add: default_config_def nth_append)
  have e: "check_collision ?t 100 600 = Inr False"
    using collision_probe [OF R ne, of 100 600] by (simp add: default_config_def nth_append)
  from a b c d e show ?thesis by blast
qed

section \<open>Projectile impact\<close>

lemma projectile_tick_eq:
  assumes R: "0 < TERRAIN_RESOLUTION (config t)" and ne: "height_map t \<noteq> []"
  shows "\<exists>hit t'.
     check_collision t (py_int (proj_x (Projectile_update cfg p)))
         (py_int (proj_y (Projectile_update cfg p))) = Inr hit
     \<and> (if hit
         then apply_destruction t (py_int (proj_x (Projectile_update cfg p)))
                (py_int (proj_y (Projectile_update cfg p))) 20 = Inr t'
         else t' = t)
     \<and> projectile_tick cfg t en p =
         Inr (t',
              (if hypot (proj_x (Projectile_update cfg p) - ant_x en)
                        (proj_y (Projectile_update cfg p) - ant_y en) < 15
               then take_damage (proj_damage (Projectile_update cfg p)) en else en),
              (Projectile_update cfg p)
                \<lparr>active :=
                   active (Projectile_update cfg p) \<and> \<not> hit
                   \<and> \<not> hypot (proj_x (Projectile_update cfg p) - ant_x en)
                              (proj_y (Projectile_update cfg p) - ant_y en) < 15\<rparr>)"
proof -
  define q where "q = Projectile_update cfg p"
  define X where "X = py_int (proj_x q)"
  define Y where "Y = py_int (proj_y q)"
  from check_collision_eq [OF R ne, of X Y]
  obtain hit where cc: "check_collision t X Y = Inr hit" by blast
  show ?thesis
  proof (cases hit)
    case True
    from apply_destruction_Inr [OF R, of X Y 20]
    obtain t' where app: "apply_destruction t X Y 20 = Inr t'" by blast
    have "projectile_tick cfg t en p =
         Inr (t',
              (if hypot (proj_x q - ant_x en) (proj_y q - ant_y en) < 15
               then take_damage (proj_damage q) en else en),
              q\<lparr>active := active q \<and> \<not> hit
                   \<and> \<not> hypot (proj_x q - ant_x en) (proj_y q - ant_y en) < 15\<rparr>)"
      using cc app True
      by (simp add: projectile_tick_def Let_def q_def [symmetric] X_def [symmetric]
          Y_def [symmetric])
    with cc app True show ?thesis
      unfolding q_def [symmetric] X_def [symmetric] Y_def [symmetric] by auto
  next
    case False
    have "projectile_tick cfg t en p =
         Inr (t,
              (if hypot (proj_x q - ant_x en) (proj_y q - ant_y en) < 15
               then take_damage (proj_damage q) en else en),
              q\<lparr>active := active q \<and> \<not> hit
                   \<and> \<not> hypot (proj_x q - ant_x en) (proj_y q - ant_y en) < 15\<rparr>)"
      using cc False
      by (simp add: projectile_tick_def Let_def q_def [symmetric] X_def [symmetric]
          Y_def [symmetric])
    with cc False show ?thesis
      unfolding q_def [symmetric] X_def [symmetric] Y_def [symmetric] by auto
  qed
qed


lemma Projectile_update_fields:
  "proj_x (Projectile_update cfg p) = proj_x p + fst (proj_velocity p)"
  "proj_y (Projectile_update cfg p) = proj_y p + (snd (proj_velocity p) + GRAVITY cfg)"
  "proj_damage (Projectile_update cfg p) = proj_damage p"
  "active (Projectile_update cfg p) = active p"
  by (simp_all add: Projectile_update_def Let_def)

text \<open>
  Both branches fire in one tick: the projectile comes down at (655, 455), which is in
  the ground (the ground line is at 450) and about 7 units from the enemy at (650, 450).
  The terrain gets its crater, the enemy loses 30 health, the projectile is inactive.
\<close>

theorem projectile_impact_counterexample:
  "check_collision \<lparr>config = default_config, height_map = replicate 400 150\<rparr> 655 455 = Inr True
   \<and> (case projectile_tick default_config
              \<lparr>config = default_config, height_map = replicate 400 150\<rparr>
              (Ant_init 650 450 True) (Projectile_init 650 449.5 (5, 5)) of
        Inl err \<Rightarrow> False
      | Inr (t', en', p') \<Rightarrow>
          height_map t' ! 327 = 141 \<and> health en' = 70 \<and> \<not> active p'
          \<and> proj_x p' = 655 \<and> proj_y p' = 455)
   \<and> health (Ant_init 650 450 True) = 100"
proof -
  let ?t = "\<lparr>config = default_config, height_map = replicate 400 150\<rparr>"
  let ?en = "Ant_init 650 450 True"
  let ?p = "Projectile_init 650 449.5 (5, 5)"
  let ?q = "Projectile_update default_config ?p"
  have R: "0 < TERRAIN_RESOLUTION (config ?t)" by (simp add: default_config_def)
  have ne: "height_map ?t \<noteq> []" by simp
  have qx: "proj_x ?q = 655" and qy: "proj_y ?q = 455" and qd: "proj_damage ?q = 30"
    by (simp_all add: Projectile_update_fields Projectile_init_def default_config_def)
  have ix: "py_int 655 = 655" and iy: "py_int 455 = 455" by (simp_all add: py_int_def)
  have cc: "check_collision ?t 655 455 = Inr True"
    by (subst check_collision_eq [OF R ne]) (simp add: default_config_def)
  have near: "hypot (655 - ant_x ?en) (455 - ant_y ?en) < 15"
    by (simp add: hypot_less_iff Ant_init_def)
  from projectile_tick_eq [OF R ne, of default_config ?p ?en]
  obtain hit t' where 1: "check_collision ?t (py_int (proj_x ?q)) (py_int (proj_y ?q)) = Inr hit"
    and 2: "if hit then apply_destruction ?t (py_int (proj_x ?q)) (py_int (proj_y ?q)) 20 = Inr t'
            else t' = ?t"
    and 3: "projectile_tick default_config ?t ?en ?p =
         Inr (t',
              (if hypot (proj_x ?q - ant_x ?en) (proj_y ?q - ant_y ?en) < 15
               then take_damage (proj_damage ?q) ?en else ?en),
              ?q\<lparr>active := active ?q \<and> \<not> hit
                   \<and> \<not> hypot (proj_x ?q - ant_x ?en) (proj_y ?q - ant_y ?en) < 15\<rparr>)"
    by blast
  from 1 have "check_collision ?t 655 455 = Inr hit" unfolding qx qy ix iy .
  with cc have hit: "hit" by simp
  from 2 hit have "apply_destruction ?t (py_int (proj_x ?q)) (py_int (proj_y ?q)) 20 = Inr t'"
    by (simp only: if_True)
  then have app: "apply_destruction ?t 655 455 20 = Inr t'" unfolding qx qy ix iy .
  have i: "327 < length (height_map ?t)" by simp
  from apply_destruction_nth [OF R i, of 655 455 20] app
  have h: "height_map t' ! 327 = 141" by (simp add: default_config_def)
  from 3 have "projectile_tick default_config ?t ?en ?p =
         Inr (t',
              (if hypot (655 - ant_x ?en) (455 - ant_y ?en) < 15
               then take_damage 30 ?en else ?en),
              ?q\<lparr>active := active ?q \<and> \<not> hit
                   \<and> \<not> hypot (655 - ant_x ?en) (455 - ant_y ?en) < 15\<rparr>)"
    unfolding qx qy qd .
  with near hit
  have tick: "projectile_tick default_config ?t ?en ?p =
         Inr (t', take_damage 30 ?en, ?q\<lparr>active := False\<rparr>)"
    by (simp only: if_True simp_thms)
  have dmg: "health (take_damage 30 ?en) = 70"
    by (simp add: take_damage_def Ant_init_def Let_def)
  have "proj_x (?q\<lparr>active := False\<rparr>) = 655" and "proj_y (?q\<lparr>active := False\<rparr>) = 455"
    using qx qy by simp_all
  moreover have "health ?en = 100" by (simp add: Ant_init_def)
  ultimately show ?thesis using h dmg cc by (simp only: tick) simp
qed

text \<open>
  Claim C1, as the code has it. After the projectile has moved, the ground is checked
  first: on a collision the crater of radius 20 is applied and the projectile is
  deactivated. Then, whether or not the ground check fired, the enemy takes the
  projectile's damage and the projectile is deactivated if the distance to the enemy is
  below 15. The projectile stays as active as it was only when neither fired.
\<close>

theorem projectile_impact:
  "0 < TERRAIN_RESOLUTION (config t) \<Longrightarrow> height_map t \<noteq> [] \<Longrightarrow>
   (\<exists>hit t'.
     check_collision t (py_int (proj_x (Projectile_update cfg p)))
         (py_int (proj_y (Projectile_update cfg p))) = Inr hit
     \<and> (if hit
         then apply_destruction t (py_int (proj_x (Projectile_update cfg p)))
                (py_int (proj_y (Projectile_update cfg p))) 20 = Inr t'
         else t' = t)
     \<and> projectile_tick cfg t en p =
         Inr (t',
              (if hypot (proj_x (Projectile_update cfg p) - ant_x en)
                        (proj_y (Projectile_update cfg p) - ant_y en) < 15
               then take_damage (proj_damage (Projectile_update cfg p)) en else en),
              (Projectile_update cfg p)
                \<lparr>active :=
                   active (Projectile_update cfg p) \<and> \<not> hit
                   \<and> \<not> hypot (proj_x (Projectile_update cfg p) - ant_x en)
                              (proj_y (Projectile_update cfg p) - ant_y en) < 15\<rparr>))"
  by (rule projectile_tick_eq)

theorem projectile_impact_witness:
  "(case projectile_tick default_config
            \<lparr>config = default_config, height_map = replicate 400 150\<rparr>
            (Ant_init 650 450 True) (Projectile_init 100 449.5 (5, 5)) of
      Inl err \<Rightarrow> False
    | Inr (t', en', p') \<Rightarrow>
        height_map t' ! 52 = 141 \<and> en' = Ant_init 650 450 True \<and> \<not> active p')
   \<and> (case projectile_tick default_config
            \<lparr>config = default_config, height_map = replicate 400 150\<rparr>
            (Ant_init 650 450 True) (Projectile_init 100 299.5 (5, 5)) of
      Inl err \<Rightarrow> False
    | Inr (t', en', p') \<Rightarrow>
        t' = \<lparr>config = default_config, height_map = replicate 400 150\<rparr>
        \<and> en' = Ant_init 650 450 True \<and> active p')"
proof -
  let ?t = "\<lparr>config = default_config, height_map = replicate 400 150\<rparr>"
  let ?en = "Ant_init 650 450 True"
  let ?p = "Projectile_init 100 449.5 (5, 5)"
  let ?q = "Projectile_update default_config ?p"
  let ?p2 = "Projectile_init 100 299.5 (5, 5)"
  let ?q2 = "Projectile_update default_config ?p2"
  have R: "0 < TERRAIN_RESOLUTION (config ?t)" by (simp add: default_config_def)
  have ne: "height_map ?t \<noteq> []" by simp
  have qx: "proj_x ?q = 105" and qy: "proj_y ?q = 455" and qa: "active ?q"
    by (simp_all add: Projectile_update_fields Projectile_init_def default_config_def)
  have q2x: "proj_x ?q2 = 105" and q2y: "proj_y ?q2 = 305" and q2a: "active ?q2"
    by (simp_all add: Projectile_update_fields Projectile_init_def default_config_def)
  have ix: "py_int 105 = 105" and iy: "py_int 455 = 455" and iy2: "py_int 305 = 305"
    by (simp_all add: py_int_def)
  have cc: "check_collision ?t 105 455 = Inr True"
    by (subst check_collision_eq [OF R ne]) (simp add: default_config_def)
  have cc2: "check_collision ?t 105 305 = Inr False"
    by (subst check_collision_eq [OF R ne]) (simp add: default_config_def)
  have far: "\<not> hypot (105 - ant_x ?en) (455 - ant_y ?en) < 15"
    by (simp add: hypot_less_iff Ant_init_def)
  have far2: "\<not> hypot (105 - ant_x ?en) (305 - ant_y ?en) < 15"
    by (simp add: hypot_less_iff Ant_init_def)
  from projectile_impact [OF R ne, of default_config ?p ?en]
  obtain hit t' where 1: "check_collision ?t (py_int (proj_x ?q)) (py_int (proj_y ?q)) = Inr hit"
    and 2: "if hit then apply_destruction ?t (py_int (proj_x ?q)) (py_int (proj_y ?q)) 20 = Inr t'
            else t' = ?t"
    and 3: "projectile_tick default_config ?t ?en ?p =
         Inr (t',
              (if hypot (proj_x ?q - ant_x ?en) (proj_y ?q - ant_y ?en) < 15
               then take_damage (proj_damage ?q) ?en else ?en),
              ?q\<lparr>active := active ?q \<and> \<not> hit
                   \<and> \<not> hypot (proj_x ?q - ant_x ?en) (proj_y ?q - ant_y ?en) < 15\<rparr>)"
    by blast
  from 1 have "check_collision ?t 105 455 = Inr hit" unfolding qx qy ix iy .
  with cc have hit: "hit" by simp
  from 2 hit have "apply_destruction ?t (py_int (proj_x ?q)) (py_int (proj_y ?q)) 20 = Inr t'"
    by (simp only: if_True)
  then have app: "apply_destruction ?t 105 455 20 = Inr t'" unfolding qx qy ix iy .
  have i: "52 < length (height_map ?t)" by simp
  from apply_destruction_nth [OF R i, of 105 455 20] app
  have h: "height_map t' ! 52 = 141" by (simp add: default_config_def)
  from 3 have "projectile_tick default_config ?t ?en ?p =
         Inr (t',
              (if hypot (105 - ant_x ?en) (455 - ant_y ?en) < 15
               then take_damage (proj_damage ?q) ?en else ?en),
              ?q\<lparr>active := active ?q \<and> \<not> hit
                   \<and> \<not> hypot (105 - ant_x ?en) (455 - ant_y ?en) < 15\<rparr>)"
    unfolding qx qy .
  with far hit
  have tick: "projectile_tick default_config ?t ?en ?p = Inr (t', ?en, ?q\<lparr>active := False\<rparr>)"
    by (simp only: if_False simp_thms)
  from projectile_impact [OF R ne, of default_config ?p2 ?en]
  obtain hit2 t2 where 4: "check_collision ?t (py_int (proj_x ?q2)) (py_int (proj_y ?q2)) = Inr hit2"
    and 5: "if hit2 then apply_destruction ?t (py_int (proj_x ?q2)) (py_int (proj_y ?q2)) 20 = Inr t2
            else t2 = ?t"
    and 6: "projectile_tick default_config ?t ?en ?p2 =
         Inr (t2,
              (if hypot (proj_x ?q2 - ant_x ?en) (proj_y ?q2 - ant_y ?en) < 15
               then take_damage (proj_damage ?q2) ?en else ?en),
              ?q2\<lparr>active := active ?q2 \<and> \<not> hit2
                   \<and> \<not> hypot (proj_x ?q2 - ant_x ?en) (proj_y ?q2 - ant_y ?en) < 15\<rparr>)"
    by blast
  from 4 have "check_collision ?t 105 305 = Inr hit2" unfolding q2x q2y ix iy2 .
  with cc2 have nohit: "\<not> hit2" by simp
  with 5 have t2: "t2 = ?t" by (simp only: if_False)
  from 6 have "projectile_tick default_config ?t ?en ?p2 =
         Inr (t2,
              (if hypot (105 - ant_x ?en) (305 - ant_y ?en) < 15
               then take_damage (proj_damage ?q2) ?en else ?en),
              ?q2\<lparr>active := active ?q2 \<and> \<not> hit2
                   \<and> \<not> hypot (105 - ant_x ?en) (305 - ant_y ?en) < 15\<rparr>)"
    unfolding q2x q2y .
  with far2 nohit q2a t2
  have tick2: "projectile_tick default_config ?t ?en ?p2 = Inr (?t, ?en, ?q2\<lparr>active := True\<rparr>)"
    by (simp only: if_False simp_thms)
  from h show ?thesis by (simp only: tick tick2) simp
qed

end
